theory Spec2Isabelle
  imports Complex_Main "HOL-Library.Log_Nat"
begin

text \<open>
  A model of the rollover and streak engine of \<open>server.js\<close> (Streaks: Overload):
  the day-key utilities, \<open>roundTo\<close>, \<open>normalizeTask\<close>, \<open>trySecureToday\<close>,
  \<open>processTaskToToday\<close>, \<open>processAllToToday\<close> and the hopper addition of
  \<open>handleApi\<close>.  Mutation of a task or of \<open>STATE\<close> is modelled by returning the
  new value; what a function reads from outside (the clock, the local date, a fresh
  identifier) is an argument.
\<close>

section \<open>JavaScript numbers\<close>

text \<open>
  A JavaScript Number is an IEEE 754 binary64 value.  The model keeps the three
  non-finite values apart and carries a finite value as the rational it denotes;
  every arithmetic operation computes the exact rational result and rounds it to
  the nearest binary64 value, ties to even, overflowing to an infinity
  (\<open>rnd\<close>).  The sign of zero is not modelled: no operation of \<open>server.js\<close>
  modelled here tells \<open>+0\<close> from \<open>-0\<close>.
\<close>

datatype jsnum = NaN | PInf | NInf | Fin rat

definition pow2 :: "int \<Rightarrow> rat" where
  "pow2 e = (if 0 \<le> e then 2 ^ nat e else 1 / 2 ^ nat (- e))"

text \<open>The binary exponent of a non-zero rational: \<open>2^e \<le> |x| < 2^(e+1)\<close>.\<close>

definition ilog2 :: "rat \<Rightarrow> int" where
  "ilog2 x = (case quotient_of \<bar>x\<bar> of (p, q) \<Rightarrow>
     (let e0 = bitlen p - bitlen q
      in if pow2 e0 \<le> \<bar>x\<bar> then e0 else e0 - 1))"

definition roundTiesToEven :: "rat \<Rightarrow> int" where
  "roundTiesToEven r = (let f = \<lfloor>r\<rfloor>; d = r - of_int f in
     if d < 1 / 2 then f else if 1 / 2 < d then f + 1 else if even f then f else f + 1)"

text \<open>
  Rounding to binary64: 53 significant bits, exponents from \<open>-1022\<close> (below it the
  spacing stays \<open>2^-1074\<close>, the subnormal numbers) to \<open>1023\<close>.
\<close>

definition rnd :: "rat \<Rightarrow> jsnum" where
  "rnd x = (if x = 0 then Fin 0 else
     (let e = max (ilog2 x) (- 1022);
          q = pow2 (e - 52);
          m = roundTiesToEven (x / q)
      in if 1024 \<le> e \<or> (e = 1023 \<and> \<bar>m\<bar> = 2 ^ 53) then (if 0 < x then PInf else NInf)
         else Fin (of_int m * q)))"

fun js_neg :: "jsnum \<Rightarrow> jsnum" where
  "js_neg NaN = NaN"
| "js_neg PInf = NInf"
| "js_neg NInf = PInf"
| "js_neg (Fin x) = Fin (- x)"

fun js_add :: "jsnum \<Rightarrow> jsnum \<Rightarrow> jsnum" where
  "js_add NaN _ = NaN"
| "js_add _ NaN = NaN"
| "js_add PInf NInf = NaN"
| "js_add NInf PInf = NaN"
| "js_add PInf _ = PInf"
| "js_add _ PInf = PInf"
| "js_add NInf _ = NInf"
| "js_add _ NInf = NInf"
| "js_add (Fin x) (Fin y) = rnd (x + y)"

definition js_sub :: "jsnum \<Rightarrow> jsnum \<Rightarrow> jsnum" where
  "js_sub a b = js_add a (js_neg b)"

text \<open>The sign of a number that is not NaN: \<open>-1\<close>, \<open>0\<close> or \<open>1\<close>.\<close>

fun js_sign :: "jsnum \<Rightarrow> int" where
  "js_sign NaN = 0"
| "js_sign PInf = 1"
| "js_sign NInf = - 1"
| "js_sign (Fin x) = (if x < 0 then - 1 else if x = 0 then 0 else 1)"

definition signedInf :: "int \<Rightarrow> jsnum" where
  "signedInf s = (if s = 0 then NaN else if 0 < s then PInf else NInf)"

fun js_mul :: "jsnum \<Rightarrow> jsnum \<Rightarrow> jsnum" where
  "js_mul NaN _ = NaN"
| "js_mul _ NaN = NaN"
| "js_mul (Fin x) (Fin y) = rnd (x * y)"
| "js_mul a b = signedInf (js_sign a * js_sign b)"

text \<open>
  Division.  A finite non-zero number over zero is an infinity whose sign IEEE takes
  from both operands; with unsigned zero the model takes it from the dividend
  (the only divisor in \<open>server.js\<close> is the positive \<open>10 ** 6\<close>).
\<close>

fun js_div :: "jsnum \<Rightarrow> jsnum \<Rightarrow> jsnum" where
  "js_div NaN _ = NaN"
| "js_div _ NaN = NaN"
| "js_div (Fin x) (Fin y) = (if y = 0 then signedInf (js_sign (Fin x)) else rnd (x / y))"
| "js_div (Fin x) _ = Fin 0"
| "js_div a (Fin y) = signedInf (js_sign a * (if y < 0 then - 1 else 1))"
| "js_div _ _ = NaN"

fun js_lt :: "jsnum \<Rightarrow> jsnum \<Rightarrow> bool" where
  "js_lt NaN _ = False"
| "js_lt _ NaN = False"
| "js_lt PInf _ = False"
| "js_lt _ PInf = True"
| "js_lt _ NInf = False"
| "js_lt NInf _ = True"
| "js_lt (Fin x) (Fin y) = (x < y)"

text \<open>\<open>a === b\<close> on numbers: NaN equals nothing.\<close>

definition js_eq :: "jsnum \<Rightarrow> jsnum \<Rightarrow> bool" where
  "js_eq a b = (a \<noteq> NaN \<and> b \<noteq> NaN \<and> a = b)"

definition js_gt :: "jsnum \<Rightarrow> jsnum \<Rightarrow> bool" where
  "js_gt a b = js_lt b a"

definition js_ge :: "jsnum \<Rightarrow> jsnum \<Rightarrow> bool" where
  "js_ge a b = (js_lt b a \<or> js_eq a b)"

text \<open>\<open>Math.max(a, b)\<close>: NaN if either argument is.\<close>

definition Math_max :: "jsnum \<Rightarrow> jsnum \<Rightarrow> jsnum" where
  "Math_max a b = (if a = NaN \<or> b = NaN then NaN else if js_lt a b then b else a)"

text \<open>
  \<open>Math.round(x)\<close>: the integer nearest to \<open>x\<close>, a tie going up.  The result is
  exact: a binary64 value of magnitude \<open>2^52\<close> or more is an integer already.
\<close>

fun Math_round :: "jsnum \<Rightarrow> jsnum" where
  "Math_round (Fin x) = Fin (of_int \<lfloor>x + 1 / 2\<rfloor>)"
| "Math_round a = a"

fun isFinite :: "jsnum \<Rightarrow> bool" where
  "isFinite (Fin x) = True"
| "isFinite _ = False"

fun isInteger :: "jsnum \<Rightarrow> bool" where
  "isInteger (Fin x) = (of_int \<lfloor>x\<rfloor> = x)"
| "isInteger _ = False"

text \<open>\<open>Number.EPSILON\<close> is \<open>2^-52\<close>.\<close>

definition Number_EPSILON :: jsnum where
  "Number_EPSILON = Fin (pow2 (- 52))"

subsection \<open>Constants of \<open>server.js\<close>\<close>

text \<open>A decimal literal denotes the binary64 value nearest to it.\<close>

definition DAILY_THRESHOLD :: jsnum where
  "DAILY_THRESHOLD = Fin 1"

definition DAILY_DECAY_MULTIPLIER :: jsnum where
  "DAILY_DECAY_MULTIPLIER = rnd (9 / 10)"

definition EPS :: jsnum where
  "EPS = rnd (1 / 10 ^ 9)"

subsection \<open>\<open>roundTo\<close>\<close>

text \<open>
  \<open>roundTo(n, digits = 6)\<close>; every call in \<open>server.js\<close> leaves \<open>digits\<close> at its
  default, and \<open>10 ** 6\<close> is exactly \<open>1000000\<close>.
\<close>

definition roundTo :: "jsnum \<Rightarrow> jsnum" where
  "roundTo n = (if \<not> isFinite n then Fin 0
     else (let f = Fin (10 ^ 6)
           in js_div (Math_round (js_mul (js_add n Number_EPSILON) f)) f))"

section \<open>Strings and day keys\<close>

text \<open>
  A string is its list of code units (here: code units below 256).  Relational
  comparison of two strings in JavaScript is lexicographic on the code units.
\<close>

fun js_str_lt :: "string \<Rightarrow> string \<Rightarrow> bool" where
  "js_str_lt [] [] = False"
| "js_str_lt [] (y # ys) = True"
| "js_str_lt (x # xs) [] = False"
| "js_str_lt (x # xs) (y # ys) =
     (if x = y then js_str_lt xs ys else (of_char x :: nat) < of_char y)"

definition js_str_gt :: "string \<Rightarrow> string \<Rightarrow> bool" where
  "js_str_gt a b = js_str_lt b a"

definition startsWith :: "string \<Rightarrow> string \<Rightarrow> bool" where
  "startsWith s p = (take (length p) s = p)"

text \<open>\<open>String.prototype.trim\<close>: white space and line terminators below 256.\<close>

definition isWhiteSpace :: "char \<Rightarrow> bool" where
  "isWhiteSpace c = ((of_char c :: nat) \<in> {9, 10, 11, 12, 13, 32, 160})"

definition trim :: "string \<Rightarrow> string" where
  "trim s = rev (dropWhile isWhiteSpace (rev (dropWhile isWhiteSpace s)))"

text \<open>The regular expression class \<open>\d\<close>: the ten ASCII digits.\<close>

definition isDigit :: "char \<Rightarrow> bool" where
  "isDigit c = (48 \<le> (of_char c :: nat) \<and> (of_char c :: nat) \<le> 57)"

definition digitVal :: "char \<Rightarrow> int" where
  "digitVal c = int (of_char c) - 48"

text \<open>\<open>Number(s)\<close> on a string of decimal digits.\<close>

definition digitsToInt :: "string \<Rightarrow> int" where
  "digitsToInt cs = foldl (\<lambda>acc c. 10 * acc + digitVal c) 0 cs"

text \<open>
  \<open>/^(\d{4})-(\d{2})-(\d{2})$/.exec(dateKey)\<close> followed by \<open>Number\<close> on the three
  groups: \<open>None\<close> when the expression does not match.
\<close>

definition matchDayKey :: "string \<Rightarrow> (int \<times> int \<times> int) option" where
  "matchDayKey k = (case k of
       [y1, y2, y3, y4, h1, m1, m2, h2, d1, d2] \<Rightarrow>
         (if isDigit y1 \<and> isDigit y2 \<and> isDigit y3 \<and> isDigit y4 \<and> h1 = CHR ''-''
             \<and> isDigit m1 \<and> isDigit m2 \<and> h2 = CHR ''-'' \<and> isDigit d1 \<and> isDigit d2
          then Some (digitsToInt [y1, y2, y3, y4], digitsToInt [m1, m2], digitsToInt [d1, d2])
          else None)
     | _ \<Rightarrow> None)"

text \<open>\<open>/^\d{4}-\d{2}-\d{2}$/.test(k)\<close>.\<close>

definition testDayKey :: "string \<Rightarrow> bool" where
  "testDayKey k = (matchDayKey k \<noteq> None)"

text \<open>\<open>String(n)\<close> for an integer, and \<open>pad2\<close>.\<close>

definition digitChar :: "int \<Rightarrow> char" where
  "digitChar d = ''0123456789'' ! nat d"

function showDigits :: "int \<Rightarrow> string" where
  "showDigits n = (if n < 10 then [digitChar n] else showDigits (n div 10) @ [digitChar (n mod 10)])"
  by pat_completeness auto
termination
  by (relation "measure (\<lambda>n. nat n)") auto

declare showDigits.simps [simp del]

definition String_int :: "int \<Rightarrow> string" where
  "String_int n = (if n < 0 then CHR ''-'' # showDigits (- n) else showDigits n)"

definition pad2 :: "int \<Rightarrow> string" where
  "pad2 n = (let s = String_int n in replicate (2 - length s) CHR ''0'' @ s)"

subsection \<open>The calendar of the \<open>Date\<close> object\<close>

text \<open>
  The day arithmetic of ECMAScript, on day numbers (days since 1970-01-01 UTC):
  \<open>DayFromYear\<close>, \<open>InLeapYear\<close>, \<open>YearFromTime\<close>, \<open>MonthFromTime\<close>,
  \<open>DateFromTime\<close> and \<open>MakeDay\<close>.  Months count from 0.
\<close>

definition msPerDay :: int where
  "msPerDay = 86400000"

definition DayFromYear :: "int \<Rightarrow> int" where
  "DayFromYear y = 365 * (y - 1970) + (y - 1969) div 4 - (y - 1901) div 100 + (y - 1601) div 400"

definition InLeapYear :: "int \<Rightarrow> bool" where
  "InLeapYear y = (if y mod 4 \<noteq> 0 then False else if y mod 100 \<noteq> 0 then True
                   else if y mod 400 \<noteq> 0 then False else True)"

text \<open>
  The year of a day number: the largest \<open>y\<close> with \<open>DayFromYear y \<le> d\<close>, found from
  the estimate \<open>1970 + d / 365.2425\<close>, which is off by one at most
  (lemma \<open>YearFromDay_bounds\<close>).
\<close>

definition YearFromDay :: "int \<Rightarrow> int" where
  "YearFromDay d = (let y = 1970 + (400 * d) div 146097 in
     if d < DayFromYear y then y - 1 else if DayFromYear (y + 1) \<le> d then y + 1 else y)"

definition leapDays :: "int \<Rightarrow> int" where
  "leapDays y = (if InLeapYear y then 1 else 0)"

text \<open>The day within the year on which month \<open>m\<close> (0 to 11) begins.\<close>

definition monthStart :: "int \<Rightarrow> int \<Rightarrow> int" where
  "monthStart y m = (let l = leapDays y in
     [0, 31, 59 + l, 90 + l, 120 + l, 151 + l, 181 + l, 212 + l, 243 + l, 273 + l,
      304 + l, 334 + l] ! nat m)"

definition DayWithinYear :: "int \<Rightarrow> int" where
  "DayWithinYear d = d - DayFromYear (YearFromDay d)"

definition MonthFromDay :: "int \<Rightarrow> int" where
  "MonthFromDay d = (let y = YearFromDay d; w = DayWithinYear d in
     if w < monthStart y 1 then 0 else if w < monthStart y 2 then 1
     else if w < monthStart y 3 then 2 else if w < monthStart y 4 then 3
     else if w < monthStart y 5 then 4 else if w < monthStart y 6 then 5
     else if w < monthStart y 7 then 6 else if w < monthStart y 8 then 7
     else if w < monthStart y 9 then 8 else if w < monthStart y 10 then 9
     else if w < monthStart y 11 then 10 else 11)"

definition DateFromDay :: "int \<Rightarrow> int" where
  "DateFromDay d = DayWithinYear d - monthStart (YearFromDay d) (MonthFromDay d) + 1"

definition MakeDay :: "int \<Rightarrow> int \<Rightarrow> int \<Rightarrow> int" where
  "MakeDay year month date =
     (let ym = year + month div 12; mn = month mod 12
      in DayFromYear ym + monthStart ym mn + date - 1)"

text \<open>
  \<open>Date.UTC(y, m, d)\<close> in milliseconds.  A year from 0 to 99 means 1900 + year.
  The time value stays far inside the range of \<open>TimeClip\<close> for the arguments a
  day key can give (four digits of year, two of month and day).
\<close>

definition Date_UTC :: "int \<Rightarrow> int \<Rightarrow> int \<Rightarrow> int" where
  "Date_UTC y m d = (let yr = (if 0 \<le> y \<and> y \<le> 99 then 1900 + y else y)
                     in MakeDay yr m d * msPerDay)"

text \<open>\<open>Day(t)\<close>, the day number of a time value.\<close>

definition Day :: "int \<Rightarrow> int" where
  "Day t = t div msPerDay"

text \<open>\<open>dateKeyFromUTCDate(d)\<close>, on the time value of \<open>d\<close>.\<close>

definition dateKeyFromUTCDate :: "int \<Rightarrow> string" where
  "dateKeyFromUTCDate t = String_int (YearFromDay (Day t)) @ ''-''
     @ pad2 (MonthFromDay (Day t) + 1) @ ''-'' @ pad2 (DateFromDay (Day t))"

text \<open>\<open>d.setUTCDate(d.getUTCDate() + days)\<close>, on a time value at midnight.\<close>

definition setUTCDate_add :: "int \<Rightarrow> int \<Rightarrow> int" where
  "setUTCDate_add t days =
     MakeDay (YearFromDay (Day t)) (MonthFromDay (Day t)) (DateFromDay (Day t) + days) * msPerDay"

text \<open>
  What a call reads from its surroundings: the clock \<open>Date.now()\<close>, the local
  day key \<open>localDateKey()\<close>, the identifier \<open>crypto.randomUUID()\<close> returns, and
  the number that \<open>Number(v)\<close> reads from a string \<open>v\<close> or from the string an array
  \<open>v\<close> is joined to (the number grammar of the language, not modelled further).
  One call sees one value of each.
\<close>

datatype json = JNull | JBool bool | JNum jsnum | JStr string | JArr "json list"
  | JObj "(string \<times> json) list"

record env =
  now :: int
  localDateKey :: string
  randomUUID :: string
  coerceNumber :: "json \<Rightarrow> jsnum"

fun addDaysFrom :: "env \<Rightarrow> (int \<times> int \<times> int) option \<Rightarrow> int \<Rightarrow> string" where
  "addDaysFrom e None days = localDateKey e"
| "addDaysFrom e (Some (y, mo, da)) days =
     dateKeyFromUTCDate (setUTCDate_add (Date_UTC y (mo - 1) da) days)"

definition addDaysKey :: "env \<Rightarrow> string \<Rightarrow> int \<Rightarrow> string" where
  "addDaysKey e dateKey days = addDaysFrom e (matchDayKey dateKey) days"

text \<open>
  \<open>Math.floor(Date.UTC(y, mo - 1, da) / 86400000)\<close>: the time value is a multiple of
  \<open>86400000\<close> and the quotient is exact.
\<close>

fun dayNumberFrom :: "env \<Rightarrow> (int \<times> int \<times> int) option \<Rightarrow> int" where
  "dayNumberFrom e None = now e div 86400000"
| "dayNumberFrom e (Some (y, mo, da)) = Date_UTC y (mo - 1) da div 86400000"

definition dayNumberUTC :: "env \<Rightarrow> string \<Rightarrow> int" where
  "dayNumberUTC e dateKey = dayNumberFrom e (matchDayKey dateKey)"

definition dayDiff :: "env \<Rightarrow> string \<Rightarrow> string \<Rightarrow> int" where
  "dayDiff e fromKey toKey = dayNumberUTC e toKey - dayNumberUTC e fromKey"

section \<open>Tasks\<close>

text \<open>
  A task of \<open>STATE.tasks\<close>.  Every task there was built by \<open>normalizeTask\<close> or by
  the task-creation route, so each field has the type given here: \<open>dayKey\<close> is a
  string, \<open>securedToday\<close> a boolean, \<open>hopper\<close> and \<open>streak\<close> numbers.
\<close>

record task =
  task_id :: string
  name :: string
  thumbnailUrl :: "string option"
  hopper :: jsnum
  streak :: jsnum
  dayKey :: string
  securedToday :: bool
  createdAt :: jsnum
  updatedAt :: jsnum
  lastSecuredAt :: "jsnum option"
  lastSecuredReason :: "string option"

subsection \<open>\<open>normalizeTask\<close>\<close>

text \<open>Reading a property: \<open>None\<close> is \<open>undefined\<close>.\<close>

fun getProp :: "json \<Rightarrow> string \<Rightarrow> json option" where
  "getProp (JObj fs) k = map_of fs k"
| "getProp _ k = None"

text \<open>
  \<open>Number(v)\<close> converts an object or an array to a primitive first, through its
  \<open>valueOf\<close> and \<open>toString\<close>, and throws a \<open>TypeError\<close> when neither gives
  one.  For a value that \<open>JSON.parse\<close> built: the inherited \<open>valueOf\<close> returns the
  object itself, and an own property \<open>valueOf\<close> or \<open>toString\<close> holds a value
  that cannot be called; so an object converts (to \<open>[object Object]\<close>) exactly when
  it has no own property \<open>toString\<close>.  An array is joined from the strings of its
  elements (\<open>null\<close> gives the empty string), and throws when an element does.
\<close>

datatype jsError = TypeError

fun toPrimitiveThrows :: "json \<Rightarrow> bool" where
  "toPrimitiveThrows (JObj fs) = (''toString'' \<in> set (map fst fs))"
| "toPrimitiveThrows (JArr xs) = list_ex toPrimitiveThrows xs"
| "toPrimitiveThrows _ = False"

text \<open>\<open>Number(v)\<close>; the string \<open>[object Object]\<close> is not a number.\<close>

fun toNumber :: "env \<Rightarrow> json option \<Rightarrow> jsError + jsnum" where
  "toNumber e None = Inr NaN"
| "toNumber e (Some JNull) = Inr (Fin 0)"
| "toNumber e (Some (JBool b)) = Inr (Fin (if b then 1 else 0))"
| "toNumber e (Some (JNum n)) = Inr n"
| "toNumber e (Some (JStr s)) = Inr (coerceNumber e (JStr s))"
| "toNumber e (Some (JArr xs)) =
     (if toPrimitiveThrows (JArr xs) then Inl TypeError else Inr (coerceNumber e (JArr xs)))"
| "toNumber e (Some (JObj fs)) =
     (if toPrimitiveThrows (JObj fs) then Inl TypeError else Inr NaN)"

text \<open>\<open>asSafeNumber(v, fallback)\<close>: the \<open>Number(v)\<close> of its first line may throw.\<close>

fun finiteOrFallback :: "jsError + jsnum \<Rightarrow> jsnum \<Rightarrow> jsError + jsnum" where
  "finiteOrFallback (Inl err) fallback = Inl err"
| "finiteOrFallback (Inr n) fallback = Inr (if isFinite n then n else fallback)"

definition asSafeNumber :: "env \<Rightarrow> json option \<Rightarrow> jsnum \<Rightarrow> jsError + jsnum" where
  "asSafeNumber e v fallback = finiteOrFallback (toNumber e v) fallback"

text \<open>\<open>(typeof v === 'string' && v) ? v : d\<close>.\<close>

fun nonEmptyStringOr :: "json option \<Rightarrow> string \<Rightarrow> string" where
  "nonEmptyStringOr (Some (JStr s)) d = (if s \<noteq> [] then s else d)"
| "nonEmptyStringOr _ d = d"

text \<open>\<open>(typeof v === 'string' && v.trim()) ? v.trim() : d\<close>.\<close>

fun trimmedStringOr :: "json option \<Rightarrow> string \<Rightarrow> string" where
  "trimmedStringOr (Some (JStr s)) d = (if trim s \<noteq> [] then trim s else d)"
| "trimmedStringOr _ d = d"

text \<open>\<open>(typeof v === 'string' && v.startsWith('/uploads/')) ? v : null\<close>.\<close>

fun uploadUrlOrNull :: "json option \<Rightarrow> string option" where
  "uploadUrlOrNull (Some (JStr s)) = (if startsWith s ''/uploads/'' then Some s else None)"
| "uploadUrlOrNull _ = None"

text \<open>\<open>Number.isInteger(v) ? v : 0\<close>; a value that is not a number is no integer.\<close>

fun integerOrZero :: "json option \<Rightarrow> jsnum" where
  "integerOrZero (Some (JNum n)) = (if isInteger n then n else Fin 0)"
| "integerOrZero _ = Fin 0"

text \<open>\<open>(typeof v === 'string' && /^\d{4}-\d{2}-\d{2}$/.test(v)) ? v : d\<close>.\<close>

fun dayKeyOr :: "json option \<Rightarrow> string \<Rightarrow> string" where
  "dayKeyOr (Some (JStr s)) d = (if testDayKey s then s else d)"
| "dayKeyOr _ d = d"

text \<open>\<open>typeof v === 'boolean' ? v : false\<close>.\<close>

fun booleanOrFalse :: "json option \<Rightarrow> bool" where
  "booleanOrFalse (Some (JBool b)) = b"
| "booleanOrFalse _ = False"

text \<open>\<open>Number.isFinite(v) ? v : d\<close> and \<open>Number.isFinite(v) ? v : null\<close>.\<close>

fun finiteOr :: "json option \<Rightarrow> jsnum \<Rightarrow> jsnum" where
  "finiteOr (Some (JNum n)) d = (if isFinite n then n else d)"
| "finiteOr _ d = d"

fun finiteOrNull :: "json option \<Rightarrow> jsnum option" where
  "finiteOrNull (Some (JNum n)) = (if isFinite n then Some n else None)"
| "finiteOrNull _ = None"

text \<open>\<open>(typeof v === 'string') ? v : null\<close>.\<close>

fun stringOrNull :: "json option \<Rightarrow> string option" where
  "stringOrNull (Some (JStr s)) = Some s"
| "stringOrNull _ = None"

text \<open>
  \<open>normalizeTask(raw)\<close>.  Its first line replaces anything but an object by
  \<open>{}\<close>; an array is an object without any of the properties read here, and
  \<open>getProp\<close> reads \<open>undefined\<close> from everything that is not a \<open>JObj\<close>.  The one
  operation of the body that can throw is the \<open>Number(t.hopper)\<close> inside
  \<open>asSafeNumber\<close>: the properties are read from an object, and \<open>trim\<close>,
  \<open>startsWith\<close> and \<open>test\<close> are only reached on strings.
\<close>

fun normalizeWith :: "env \<Rightarrow> json \<Rightarrow> jsError + jsnum \<Rightarrow> jsError + task" where
  "normalizeWith e raw (Inl err) = Inl err"
| "normalizeWith e raw (Inr h) = Inr
     \<lparr> task_id = nonEmptyStringOr (getProp raw ''id'') (randomUUID e),
       name = trimmedStringOr (getProp raw ''name'') ''Untitled task'',
       thumbnailUrl = uploadUrlOrNull (getProp raw ''thumbnailUrl''),
       hopper = roundTo h,
       streak = integerOrZero (getProp raw ''streak''),
       dayKey = dayKeyOr (getProp raw ''dayKey'') (localDateKey e),
       securedToday = booleanOrFalse (getProp raw ''securedToday''),
       createdAt = finiteOr (getProp raw ''createdAt'') (Fin (of_int (now e))),
       updatedAt = finiteOr (getProp raw ''updatedAt'') (Fin (of_int (now e))),
       lastSecuredAt = finiteOrNull (getProp raw ''lastSecuredAt''),
       lastSecuredReason = stringOrNull (getProp raw ''lastSecuredReason'') \<rparr>"

definition normalizeTask :: "env \<Rightarrow> json \<Rightarrow> jsError + task" where
  "normalizeTask e raw = normalizeWith e raw (asSafeNumber e (getProp raw ''hopper'') (Fin 0))"

subsection \<open>\<open>trySecureToday\<close>\<close>

definition trySecureToday :: "env \<Rightarrow> task \<Rightarrow> string \<Rightarrow> task \<times> bool" where
  "trySecureToday e t reason =
     (if securedToday t then (t, False)
      else if js_ge (hopper t) (js_sub DAILY_THRESHOLD EPS) then
        (t\<lparr> securedToday := True,
            streak := js_add (if isInteger (streak t) then streak t else Fin 0) (Fin 1),
            lastSecuredAt := Some (Fin (of_int (now e))),
            lastSecuredReason := Some reason \<rparr>, True)
      else (t, False))"

subsection \<open>\<open>processTaskToToday\<close>\<close>

text \<open>Lines 312 and 314: what one round of the loop makes of the hopper.\<close>

definition decayHopper :: "jsnum \<Rightarrow> jsnum" where
  "decayHopper h = Math_max (Fin 0) (js_sub h (Fin 1))"

text \<open>
  The body of the \<open>for\<close> loop (lines 302 to 322), on the task and the flag
  \<open>changed\<close>.
\<close>

definition rolloverStep :: "env \<Rightarrow> task \<times> bool \<Rightarrow> task \<times> bool" where
  "rolloverStep e s =
     (let t0 = fst s;
          breaks = (\<not> securedToday t0 \<and> \<not> js_eq (streak t0) (Fin 0));
          t1 = (if breaks then t0\<lparr>streak := Fin 0\<rparr> else t0);
          c1 = (if breaks then True else snd s);
          newHopper = js_sub (hopper t1) (Fin 1);
          c2 = (if \<not> js_eq newHopper (hopper t1) then True else c1);
          t2 = t1\<lparr>hopper := Math_max (Fin 0) newHopper\<rparr>;
          t3 = t2\<lparr>dayKey := addDaysKey e (dayKey t2) 1, securedToday := False\<rparr>;
          c3 = True;
          r = trySecureToday e t3 ''rollover''
      in (fst r, if snd r then True else c3))"

text \<open>\<open>for (let i = 0; i < diff; i++)\<close>, with \<open>n\<close> iterations left.\<close>

fun rolloverLoop :: "env \<Rightarrow> nat \<Rightarrow> task \<times> bool \<Rightarrow> task \<times> bool" where
  "rolloverLoop e 0 s = s"
| "rolloverLoop e (Suc n) s = rolloverLoop e n (rolloverStep e s)"

text \<open>The two repairs that precede the loop (lines 282 to 293).\<close>

definition repairDayKey :: "task \<Rightarrow> string \<Rightarrow> task \<times> bool" where
  "repairDayKey t todayKey =
     (if \<not> testDayKey (dayKey t) then (t\<lparr>dayKey := todayKey, securedToday := False\<rparr>, True)
      else (t, False))"

definition clampDayKey :: "task \<times> bool \<Rightarrow> string \<Rightarrow> task \<times> bool" where
  "clampDayKey s todayKey =
     (if js_str_gt (dayKey (fst s)) todayKey
      then ((fst s)\<lparr>dayKey := todayKey, securedToday := False\<rparr>, True)
      else s)"

definition processTaskToToday :: "env \<Rightarrow> task \<Rightarrow> string \<Rightarrow> task \<times> bool" where
  "processTaskToToday e t todayKey =
     (let s = clampDayKey (repairDayKey t todayKey) todayKey;
          diff = dayDiff e (dayKey (fst s)) todayKey
      in if diff \<le> 0 then s else rolloverLoop e (nat diff) s)"

text \<open>
  The decay that the comments of \<open>server.js\<close> describe and line 311 keeps as a
  comment, \<open>roundTo(task.hopper * DAILY_DECAY_MULTIPLIER)\<close>; the code does not run it.
\<close>

definition commentedDecay :: "jsnum \<Rightarrow> jsnum" where
  "commentedDecay h = roundTo (js_mul h DAILY_DECAY_MULTIPLIER)"

section \<open>The registry\<close>

record state =
  version :: int
  stCreatedAt :: jsnum
  stUpdatedAt :: jsnum
  backgroundUrl :: "string option"
  tasks :: "task list"

text \<open>One round of the loop of \<open>processAllToToday\<close>.\<close>

definition processOne :: "env \<Rightarrow> string \<Rightarrow> task \<Rightarrow> task \<times> bool" where
  "processOne e todayKey t =
     (let r = processTaskToToday e t todayKey;
          t1 = (if snd r then (fst r)\<lparr>updatedAt := Fin (of_int (now e))\<rparr> else fst r);
          bad = (\<not> isFinite (hopper t1) \<or> js_lt (hopper t1) (Fin 0));
          t2 = (if bad then t1\<lparr>hopper := Fin 0, updatedAt := Fin (of_int (now e))\<rparr> else t1)
      in (t2, snd r \<or> bad))"

definition processAllToToday :: "env \<Rightarrow> state \<Rightarrow> state \<times> bool" where
  "processAllToToday e st =
     (let rs = map (processOne e (localDateKey e)) (tasks st);
          changed = list_ex snd rs;
          st1 = st\<lparr>tasks := map fst rs\<rparr>
      in (if changed then st1\<lparr>stUpdatedAt := Fin (of_int (now e))\<rparr> else st1, changed))"

subsection \<open>The route \<open>POST /api/tasks/:id/add\<close>\<close>

datatype reply = Reply nat string | ReplyAdded task bool | Thrown string

text \<open>\<open>STATE.tasks.find\<close> returns the first task with the identifier; the
  assignments to its fields change that element of the list.\<close>

fun replaceFirst :: "('a \<Rightarrow> bool) \<Rightarrow> 'a \<Rightarrow> 'a list \<Rightarrow> 'a list" where
  "replaceFirst P y [] = []"
| "replaceFirst P y (x # xs) = (if P x then y # xs else x # replaceFirst P y xs)"

fun addFound :: "env \<Rightarrow> state \<Rightarrow> string \<Rightarrow> jsnum \<Rightarrow> task option \<Rightarrow> reply \<times> state" where
  "addFound e st ident amount None = (Reply 404 ''Task not found'', st)"
| "addFound e st ident amount (Some t) =
     (let t1 = t\<lparr>hopper := roundTo (js_add (hopper t) amount),
                 updatedAt := Fin (of_int (now e))\<rparr>;
          r = trySecureToday e t1 ''add'';
          t2 = (if snd r then (fst r)\<lparr>updatedAt := Fin (of_int (now e))\<rparr> else fst r)
      in (ReplyAdded t2 (snd r),
          st\<lparr>tasks := replaceFirst (\<lambda>x. task_id x = ident) t2 (tasks st),
             stUpdatedAt := Fin (of_int (now e))\<rparr>))"

text \<open>
  Lines 560 to 585 of \<open>handleApi\<close>, on the parsed body: the hopper addition.
  Reading \<open>body.amount\<close> throws a \<open>TypeError\<close> when the body is \<open>null\<close>, and so
  may the \<open>Number\<close> of \<open>asSafeNumber\<close>; \<open>handleRequest\<close> answers 500 to both.
\<close>

fun addAmount :: "env \<Rightarrow> state \<Rightarrow> string \<Rightarrow> jsError + jsnum \<Rightarrow> reply \<times> state" where
  "addAmount e st ident (Inl err) = (Thrown ''TypeError'', st)"
| "addAmount e st ident (Inr amount) =
     (if js_gt amount (Fin 1000000) then (Reply 400 ''amount too large'', st)
      else addFound e st ident amount (find (\<lambda>x. task_id x = ident) (tasks st)))"

definition addToHopper :: "env \<Rightarrow> state \<Rightarrow> string \<Rightarrow> json \<Rightarrow> reply \<times> state" where
  "addToHopper e st ident body =
     (if body = JNull then (Thrown ''TypeError'', st)
      else addAmount e st ident (asSafeNumber e (getProp body ''amount'') NaN))"

text \<open>The route as \<open>handleApi\<close> runs it: the rollover pass of line 474 first.\<close>

definition handleApi_add :: "env \<Rightarrow> state \<Rightarrow> string \<Rightarrow> json \<Rightarrow> reply \<times> state" where
  "handleApi_add e st ident body = addToHopper e (fst (processAllToToday e st)) ident body"

section \<open>Examples\<close>

text \<open>
  A concrete environment and a concrete task: 5 March 2024, and a task last aligned
  three days earlier with \<open>hopper = 3.5\<close>, a streak of 5 and the day not secured.
\<close>

definition exampleEnv :: env where
  "exampleEnv = \<lparr> now = 1709600000000, localDateKey = ''2024-03-05'',
       randomUUID = ''3f0c1e9a-5b7d-4c2e-8a11-6d2f9b0e7c45'', coerceNumber = (\<lambda>v. NaN) \<rparr>"

definition exampleTask :: task where
  "exampleTask = \<lparr> task_id = ''t1'', name = ''Read'', thumbnailUrl = None,
       hopper = Fin (7 / 2), streak = Fin 5, dayKey = ''2024-03-02'', securedToday = False,
       createdAt = Fin 1709000000000, updatedAt = Fin 1709000000000,
       lastSecuredAt = None, lastSecuredReason = None \<rparr>"

text \<open>A registry holding one task created today, and the number that \<open>JSON.parse\<close>
  reads from the text \<open>-1e303\<close>.\<close>

definition exampleState :: state where
  "exampleState = \<lparr> version = 1, stCreatedAt = Fin 1709000000000, stUpdatedAt = Fin 1709000000000,
       backgroundUrl = None,
       tasks = [exampleTask\<lparr> task_id := ''t2'', hopper := Fin 0, streak := Fin 0,
                  dayKey := ''2024-03-05'' \<rparr>] \<rparr>"

definition minus1e303 :: jsnum where
  "minus1e303 = rnd (- (10 ^ 303))"

text \<open>The number read from \<open>1e303\<close>, and an object whose \<open>toString\<close> cannot be
  called, as \<open>JSON.parse\<close> reads it from \<open>{"valueOf": 0, "toString": 0}\<close>.\<close>

definition plus1e303 :: jsnum where
  "plus1e303 = rnd (10 ^ 303)"

definition notConvertible :: json where
  "notConvertible = JObj [(''valueOf'', JNum (Fin 0)), (''toString'', JNum (Fin 0))]"

section \<open>Facts about rounding\<close>

lemma pow2_powi: "pow2 e = 2 powi e"
  by (simp add: pow2_def power_int_def power_one_over inverse_eq_divide)

lemma pow2_pos: "0 < pow2 e"
  by (simp add: pow2_powi)

lemma pow2_add: "pow2 (a + b) = pow2 a * pow2 b"
  by (simp add: pow2_powi power_int_add)

lemma pow2_mono: "a \<le> b \<Longrightarrow> pow2 a \<le> pow2 b"
  by (simp add: pow2_powi power_int_increasing)

lemma pow2_strict_mono: "a < b \<Longrightarrow> pow2 a < pow2 b"
  by (simp add: pow2_powi power_int_strict_increasing)

lemma pow2_less_iff: "pow2 a < pow2 b \<longleftrightarrow> a < b"
  using pow2_mono[of b a] pow2_strict_mono[of a b] by (auto simp: not_le[symmetric])

lemma pow2_nat: "0 \<le> e \<Longrightarrow> pow2 e = 2 ^ nat e"
  by (simp add: pow2_def)

lemma ilog2_bounds:
  assumes "x \<noteq> 0"
  shows "pow2 (ilog2 x) \<le> \<bar>x\<bar> \<and> \<bar>x\<bar> < pow2 (ilog2 x + 1)"
proof -
  obtain p q where pq: "quotient_of \<bar>x\<bar> = (p, q)" by (cases "quotient_of \<bar>x\<bar>")
  have q0: "0 < q" using pq quotient_of_denom_pos by blast
  have xeq: "\<bar>x\<bar> = of_int p / of_int q" using pq quotient_of_div by blast
  have p0: "0 < p"
  proof -
    have "0 < \<bar>x\<bar>" using assms by simp
    then show ?thesis using q0 by (simp add: xeq zero_less_divide_iff)
  qed
  define bp where "bp = bitlen p"
  define bq where "bq = bitlen q"
  have bp1: "1 \<le> bp" using p0 bitlen_eq_zero_iff[of p] bitlen_nonneg[of p] by (simp add: bp_def)
  have bq1: "1 \<le> bq" using q0 bitlen_eq_zero_iff[of q] bitlen_nonneg[of q] by (simp add: bq_def)
  have pb: "2 ^ nat (bp - 1) \<le> p" "p < 2 ^ nat bp" using bitlen_bounds[OF p0] by (simp_all add: bp_def)
  have qb: "2 ^ nat (bq - 1) \<le> q" "q < 2 ^ nat bq" using bitlen_bounds[OF q0] by (simp_all add: bq_def)
  have pbr: "pow2 (bp - 1) \<le> of_int p" "of_int p < pow2 bp"
    using pb bp1 by (simp_all add: pow2_nat)
  have qbr: "pow2 (bq - 1) \<le> of_int q" "of_int q < pow2 bq"
    using qb bq1 by (simp_all add: pow2_nat)
  have qr: "(0::rat) < of_int q" using q0 by simp
  have up: "\<bar>x\<bar> < pow2 (bp - bq + 1)"
  proof -
    have "of_int p < pow2 bp" by (rule pbr)
    also have "pow2 bp = pow2 (bp - bq + 1) * pow2 (bq - 1)" by (simp add: pow2_add[symmetric])
    also have "\<dots> \<le> pow2 (bp - bq + 1) * of_int q"
      using qbr(1) pow2_pos[of "bp - bq + 1"] by (simp add: mult_left_mono)
    finally show ?thesis using qr by (simp add: xeq pos_divide_less_eq)
  qed
  have lo: "pow2 (bp - bq - 1) \<le> \<bar>x\<bar>"
  proof -
    have "pow2 (bp - bq - 1) * of_int q \<le> pow2 (bp - bq - 1) * pow2 bq"
      using qbr(2) pow2_pos[of "bp - bq - 1"] by (simp add: mult_left_mono)
    also have "\<dots> = pow2 (bp - 1)" by (simp add: pow2_add[symmetric])
    also have "\<dots> \<le> of_int p" by (rule pbr)
    finally show ?thesis using qr by (simp add: xeq pos_le_divide_eq)
  qed
  show ?thesis
    using up lo by (simp add: ilog2_def pq Let_def bp_def[symmetric] bq_def[symmetric])
qed

lemma ilog2_unique:
  assumes "pow2 e \<le> \<bar>x\<bar>" "\<bar>x\<bar> < pow2 (e + 1)"
  shows "ilog2 x = e"
proof -
  have x0: "x \<noteq> 0" using assms(1) pow2_pos[of e] by auto
  note b = ilog2_bounds[OF x0]
  have "pow2 e < pow2 (ilog2 x + 1)" using assms(1) b by linarith
  then have 1: "e < ilog2 x + 1" by (simp add: pow2_less_iff)
  have "pow2 (ilog2 x) < pow2 (e + 1)" using assms(2) b by linarith
  then have 2: "ilog2 x < e + 1" by (simp add: pow2_less_iff)
  show ?thesis using 1 2 by simp
qed

lemma roundTiesToEven_cases:
  "roundTiesToEven r = \<lfloor>r\<rfloor> \<or> (roundTiesToEven r = \<lfloor>r\<rfloor> + 1 \<and> 1 / 2 \<le> r - of_int \<lfloor>r\<rfloor>)"
  by (auto simp: roundTiesToEven_def Let_def)

lemma roundTiesToEven_ge:
  assumes "of_int n \<le> r"
  shows "n \<le> roundTiesToEven r"
proof -
  have "n \<le> \<lfloor>r\<rfloor>" using assms by (simp add: le_floor_iff)
  then show ?thesis using roundTiesToEven_cases[of r] by linarith
qed

lemma roundTiesToEven_le:
  assumes "r \<le> of_int n"
  shows "roundTiesToEven r \<le> n"
proof -
  have fl: "\<lfloor>r\<rfloor> \<le> n" using assms by (simp add: floor_le_iff)
  show ?thesis
  proof (cases "roundTiesToEven r = \<lfloor>r\<rfloor>")
    case True
    then show ?thesis using fl by simp
  next
    case False
    then have h: "roundTiesToEven r = \<lfloor>r\<rfloor> + 1" "1 / 2 \<le> r - of_int \<lfloor>r\<rfloor>"
      using roundTiesToEven_cases[of r] by auto
    have "of_int \<lfloor>r\<rfloor> < r" using h(2) by linarith
    then have "(of_int \<lfloor>r\<rfloor> :: rat) < of_int n" using assms by linarith
    then have "\<lfloor>r\<rfloor> < n" by simp
    then show ?thesis using h(1) by simp
  qed
qed

lemma roundTiesToEven_of_int [simp]: "roundTiesToEven (of_int n) = n"
  using roundTiesToEven_ge[of n "of_int n"] roundTiesToEven_le[of "of_int n" n] by simp

lemma rnd_not_NaN [simp]: "rnd x \<noteq> NaN"
  by (simp add: rnd_def Let_def)

lemma rnd_0 [simp]: "rnd 0 = Fin 0"
  by (simp add: rnd_def)

text \<open>Rounding keeps a value between the powers of two that enclose it.\<close>

lemma rnd_pos_lower:
  assumes "pow2 k \<le> x" "- 1022 \<le> k"
  shows "rnd x = PInf \<or> (\<exists>y. rnd x = Fin y \<and> pow2 k \<le> y)"
proof -
  have x0: "0 < x" using assms(1) pow2_pos[of k] by linarith
  then have xn: "x \<noteq> 0" "\<bar>x\<bar> = x" by simp_all
  note b = ilog2_bounds[OF xn(1), unfolded xn(2)]
  have "pow2 k < pow2 (ilog2 x + 1)" using assms(1) b by linarith
  then have ke: "k \<le> ilog2 x" by (simp add: pow2_less_iff)
  define e where "e = ilog2 x"
  have emax: "max (ilog2 x) (- 1022) = e" using ke assms(2) by (simp add: e_def)
  define q where "q = pow2 (e - 52)"
  have q0: "0 < q" by (simp add: q_def pow2_pos)
  have "pow2 52 * q = pow2 e" by (simp add: q_def pow2_add[symmetric])
  then have "pow2 52 * q \<le> x" using b by (simp add: e_def)
  then have "of_int (2 ^ 52) \<le> x / q" using q0 by (simp add: pos_le_divide_eq pow2_def)
  then have m: "2 ^ 52 \<le> roundTiesToEven (x / q)" by (rule roundTiesToEven_ge)
  have "pow2 k \<le> pow2 e" using ke by (simp add: e_def pow2_mono)
  also have "\<dots> = pow2 52 * q" by (simp add: q_def pow2_add[symmetric])
  also have "\<dots> = of_int (2 ^ 52) * q" by (simp add: pow2_def)
  also have "\<dots> \<le> of_int (roundTiesToEven (x / q)) * q"
    using m q0 by (intro mult_right_mono) (simp_all only: of_int_le_iff less_imp_le)
  finally have "pow2 k \<le> of_int (roundTiesToEven (x / q)) * q" .
  then show ?thesis
    using x0 by (simp add: rnd_def Let_def emax q_def[symmetric])
qed

lemma rnd_pos_upper:
  assumes "0 < x" "x \<le> pow2 k" "- 1074 \<le> k" "k \<le> 1023"
  shows "\<exists>y. rnd x = Fin y \<and> 0 \<le> y \<and> y \<le> pow2 k"
proof -
  have xn: "x \<noteq> 0" "\<bar>x\<bar> = x" using assms(1) by simp_all
  note b = ilog2_bounds[OF xn(1), unfolded xn(2)]
  define e where "e = max (ilog2 x) (- 1022)"
  define q where "q = pow2 (e - 52)"
  have q0: "0 < q" by (simp add: q_def pow2_pos)
  have "pow2 (ilog2 x) < pow2 (k + 1)"
    using b assms(2) pow2_strict_mono[of k "k + 1"] by linarith
  then have ik: "ilog2 x \<le> k" by (simp add: pow2_less_iff)
  define m where "m = roundTiesToEven (x / q)"
  have m0: "0 \<le> m"
    unfolding m_def using assms(1) q0 by (intro roundTiesToEven_ge) simp
  have ek: "0 \<le> k - e + 52" using ik assms(3) by (simp add: e_def)
  define j where "j = nat (k - e + 52)"
  have "pow2 k = pow2 (k - e + 52) * q" by (simp add: q_def pow2_add[symmetric])
  also have "pow2 (k - e + 52) = of_int (2 ^ j)" using ek by (simp add: pow2_nat j_def)
  finally have pk: "pow2 k = of_int (2 ^ j) * q" .
  have "x / q \<le> of_int (2 ^ j)" using assms(2) q0 by (simp add: pk pos_divide_le_eq)
  then have mj: "m \<le> 2 ^ j" unfolding m_def by (rule roundTiesToEven_le)
  have yk: "of_int m * q \<le> pow2 k"
    unfolding pk using mj q0 by (intro mult_right_mono) (simp_all only: of_int_le_iff less_imp_le)
  have y0: "0 \<le> of_int m * q" using m0 q0 by simp
  have e1: "e \<le> 1023" using ik assms(4) by (simp add: e_def)
  have "m \<noteq> 2 ^ 53" if "e = 1023"
  proof -
    have "k = 1023" using that ik assms(4) by (simp add: e_def max_def split: if_splits)
    then have "j = 52" using that by (simp add: j_def)
    then show ?thesis using mj by simp
  qed
  then have novf: "\<not> (1024 \<le> e \<or> (e = 1023 \<and> \<bar>m\<bar> = 2 ^ 53))"
    using e1 m0 by auto
  show ?thesis
    using novf yk y0
    by (simp add: rnd_def Let_def xn e_def[symmetric] q_def[symmetric] m_def[symmetric])
qed

lemma roundTiesToEven_char:
  assumes "\<bar>r - of_int m\<bar> < 1 / 2 \<or> (\<bar>r - of_int m\<bar> = 1 / 2 \<and> even m)"
  shows "roundTiesToEven r = m"
proof (cases "of_int m \<le> r")
  case True
  then have lt: "r < of_int m + 1" using assms by linarith
  have f: "\<lfloor>r\<rfloor> = m" using True lt by (rule floor_unique)
  have "r - of_int m < 1 / 2 \<or> (r - of_int m = 1 / 2 \<and> even m)" using assms True by linarith
  then show ?thesis by (auto simp: roundTiesToEven_def Let_def f)
next
  case False
  then have ge: "of_int (m - 1) \<le> r" "r < of_int (m - 1) + 1" using assms by auto
  have f: "\<lfloor>r\<rfloor> = m - 1" using ge by (rule floor_unique)
  have "1 / 2 < r - of_int (m - 1) \<or> (r - of_int (m - 1) = 1 / 2 \<and> odd (m - 1))"
    using assms False by auto
  then show ?thesis by (auto simp: roundTiesToEven_def Let_def f)
qed

lemma roundTiesToEven_sat:
  "\<bar>r - of_int (roundTiesToEven r)\<bar> < 1 / 2
   \<or> (\<bar>r - of_int (roundTiesToEven r)\<bar> = 1 / 2 \<and> even (roundTiesToEven r))"
proof -
  have "of_int \<lfloor>r\<rfloor> \<le> r" "r < of_int \<lfloor>r\<rfloor> + 1" by linarith+
  then show ?thesis by (auto simp: roundTiesToEven_def Let_def)
qed

lemma roundTiesToEven_minus: "roundTiesToEven (- r) = - roundTiesToEven r"
proof (rule roundTiesToEven_char)
  have "\<bar>- r - of_int (- roundTiesToEven r)\<bar> = \<bar>r - of_int (roundTiesToEven r)\<bar>" by simp
  then show "\<bar>- r - of_int (- roundTiesToEven r)\<bar> < 1 / 2 \<or>
    (\<bar>- r - of_int (- roundTiesToEven r)\<bar> = 1 / 2 \<and> even (- roundTiesToEven r))"
    using roundTiesToEven_sat[of r] by simp
qed

lemma ilog2_minus [simp]: "ilog2 (- x) = ilog2 x"
  by (simp add: ilog2_def)

lemma rnd_minus: "rnd (- x) = js_neg (rnd x)"
proof (cases "x = 0")
  case True
  then show ?thesis by simp
next
  case False
  define e where "e = max (ilog2 x) (- 1022)"
  define m where "m = roundTiesToEven (x / pow2 (e - 52))"
  have m: "roundTiesToEven (- x / pow2 (e - 52)) = - m"
    using roundTiesToEven_minus[of "x / pow2 (e - 52)"] by (simp add: m_def)
  have 1: "rnd x = (if 1024 \<le> e \<or> (e = 1023 \<and> \<bar>m\<bar> = 2 ^ 53)
                    then (if 0 < x then PInf else NInf) else Fin (of_int m * pow2 (e - 52)))"
    using False unfolding rnd_def Let_def e_def m_def by (simp only: if_False)
  have 2: "rnd (- x) = (if 1024 \<le> e \<or> (e = 1023 \<and> \<bar>m\<bar> = 2 ^ 53)
                    then (if 0 < - x then PInf else NInf) else Fin (of_int (- m) * pow2 (e - 52)))"
    using False unfolding rnd_def Let_def
    by (simp only: ilog2_minus e_def[symmetric] m neg_equal_0_iff_equal if_False abs_minus_cancel)
  show ?thesis unfolding 1 2 using False by (cases "0 < x") auto
qed

lemma rnd_neg_upper:
  assumes "x \<le> - pow2 k" "- 1022 \<le> k"
  shows "rnd x = NInf \<or> (\<exists>y. rnd x = Fin y \<and> y \<le> - pow2 k)"
proof -
  have "rnd (- x) = PInf \<or> (\<exists>y. rnd (- x) = Fin y \<and> pow2 k \<le> y)"
    using assms by (intro rnd_pos_lower) simp_all
  then show ?thesis by (cases "rnd x") (auto simp: rnd_minus)
qed

lemma rnd_neg_lower:
  assumes "x < 0" "- pow2 k \<le> x" "- 1074 \<le> k" "k \<le> 1023"
  shows "\<exists>y. rnd x = Fin y \<and> y \<le> 0 \<and> - pow2 k \<le> y"
proof -
  have "\<exists>y. rnd (- x) = Fin y \<and> 0 \<le> y \<and> y \<le> pow2 k"
    using assms by (intro rnd_pos_upper) simp_all
  then show ?thesis by (cases "rnd x") (auto simp: rnd_minus)
qed

lemma rnd_overflow:
  assumes "pow2 1024 \<le> \<bar>x\<bar>"
  shows "rnd x = (if 0 < x then PInf else NInf)"
proof -
  have x0: "x \<noteq> 0" using assms pow2_pos[of 1024] by auto
  have "pow2 1024 < pow2 (ilog2 x + 1)" using assms ilog2_bounds[OF x0] by linarith
  then have "1024 \<le> ilog2 x" by (simp add: pow2_less_iff)
  then show ?thesis using x0 by (simp add: rnd_def Let_def)
qed

text \<open>A value with at most 53 significant bits and an exponent in range is its own rounding.\<close>

lemma rnd_exact:
  assumes "\<bar>m\<bar> < 2 ^ 53" "- 1074 \<le> k" "k \<le> 971"
  shows "rnd (of_int m * pow2 k) = Fin (of_int m * pow2 k)"
proof (cases "m = 0")
  case True
  then show ?thesis by simp
next
  case False
  define x where "x = of_int m * pow2 k"
  have x0: "x \<noteq> 0" using False pow2_pos[of k] by (simp add: x_def)
  have ax: "\<bar>x\<bar> = of_int \<bar>m\<bar> * pow2 k" using pow2_pos[of k] by (simp add: x_def abs_mult)
  note b = ilog2_bounds[OF x0]
  have "of_int \<bar>m\<bar> < (of_int (2 ^ 53) :: rat)" using assms(1) by (simp only: of_int_less_iff)
  then have "\<bar>x\<bar> < pow2 53 * pow2 k"
    unfolding ax using pow2_pos[of k] by (intro mult_strict_right_mono) (simp_all add: pow2_def)
  then have "pow2 (ilog2 x) < pow2 (k + 53)" using b by (simp add: pow2_add[symmetric] add.commute)
  then have ik: "ilog2 x \<le> k + 52" by (simp add: pow2_less_iff)
  define e where "e = max (ilog2 x) (- 1022)"
  define q where "q = pow2 (e - 52)"
  have q0: "0 < q" by (simp add: q_def pow2_pos)
  have ek: "0 \<le> k - e + 52" using ik assms(2) by (simp add: e_def)
  define j where "j = nat (k - e + 52)"
  have "pow2 k = pow2 (k - e + 52) * q" by (simp add: q_def pow2_add[symmetric])
  also have "pow2 (k - e + 52) = of_int (2 ^ j)" using ek by (simp add: pow2_nat j_def)
  finally have pk: "pow2 k = of_int (2 ^ j) * q" .
  have xq: "x / q = of_int (m * 2 ^ j)" using q0 by (simp add: x_def pk)
  have r: "roundTiesToEven (x / q) = m * 2 ^ j" by (simp only: xq roundTiesToEven_of_int)
  have y: "of_int (m * 2 ^ j) * q = x" using q0 by (simp add: x_def pk)
  have e1: "e \<le> 1023" using ik assms(3) by (simp add: e_def)
  have "\<bar>m * 2 ^ j\<bar> \<noteq> 2 ^ 53" if "e = 1023"
  proof -
    have ee: "e = ilog2 x" using that by (simp add: e_def max_def split: if_splits)
    have "\<bar>x\<bar> < pow2 (e + 1)" using b by (simp add: ee)
    also have "\<dots> = pow2 53 * q" by (simp add: q_def pow2_add[symmetric] algebra_simps)
    finally have "\<bar>x\<bar> / q < pow2 53" using q0 by (simp add: pos_divide_less_eq)
    then have "\<bar>x / q\<bar> < of_int (2 ^ 53)" using q0 by (simp add: pow2_def)
    then have "(of_int \<bar>m * 2 ^ j\<bar> :: rat) < of_int (2 ^ 53)" unfolding xq by (simp only: of_int_abs)
    then have "\<bar>m * 2 ^ j\<bar> < 2 ^ 53" by (simp only: of_int_less_iff)
    then show ?thesis by simp
  qed
  then have novf: "\<not> (1024 \<le> e \<or> (e = 1023 \<and> \<bar>m * 2 ^ j\<bar> = 2 ^ 53))"
    using e1 by auto
  have "rnd x = Fin x"
    using novf x0 y
    by (simp add: rnd_def Let_def e_def[symmetric] q_def[symmetric] r del: of_int_mult of_int_power)
  then show ?thesis by (simp add: x_def)
qed

lemma rnd_int:
  assumes "\<bar>n\<bar> \<le> 2 ^ 53"
  shows "rnd (of_int n) = Fin (of_int n)"
proof (cases "\<bar>n\<bar> = 2 ^ 53")
  case True
  then have "n = 2 ^ 52 * 2 \<or> n = - (2 ^ 52) * 2" by auto
  then have "of_int n = (of_int (2 ^ 52) :: rat) * pow2 1 \<or> of_int n = (of_int (- (2 ^ 52)) :: rat) * pow2 1"
    by (auto simp: pow2_def)
  then show ?thesis
    using rnd_exact[of "2 ^ 52" 1] rnd_exact[of "- (2 ^ 52)" 1] by auto
next
  case False
  then have "\<bar>n\<bar> < 2 ^ 53" using assms by simp
  then show ?thesis using rnd_exact[of n 0] by (simp add: pow2_def)
qed

lemma rnd_numeral [simp]: "numeral w \<le> (2 ^ 53 :: int) \<Longrightarrow> rnd (numeral w) = Fin (numeral w)"
  using rnd_int[of "numeral w"] by simp

lemma rnd_1 [simp]: "rnd 1 = Fin 1"
  using rnd_int[of 1] by simp

lemma rnd_halves: "\<bar>n\<bar> < 2 ^ 53 \<Longrightarrow> rnd (of_int n / 2) = Fin (of_int n / 2)"
  using rnd_exact[of n "- 1"] by (simp add: pow2_def)

lemma EPS_eval: "EPS = Fin (4835703278458517 / 4835703278458516698824704)"
  by code_simp

lemma threshold_eval: "js_sub DAILY_THRESHOLD EPS = Fin (9007199245733793 / 9007199254740992)"
  by code_simp

lemma literal_0999999999: "rnd (999999999 / 10 ^ 9) = Fin (9007199245733793 / 9007199254740992)"
  by code_simp

lemma literal_099: "rnd (99 / 100) = Fin (4458563631096791 / 4503599627370496)"
  by code_simp

lemma js_sub_Fin [simp]: "js_sub (Fin x) (Fin y) = rnd (x - y)"
  by (simp add: js_sub_def)

lemma js_sub_not_NaN: "h \<noteq> NaN \<Longrightarrow> js_sub h (Fin y) \<noteq> NaN"
  by (cases h) (simp_all add: js_sub_def)

lemma js_ge_Fin [simp]: "js_ge (Fin x) (Fin y) = (y \<le> x)"
  by (auto simp: js_ge_def js_eq_def)

lemma js_ge_not_NaN: "js_ge a b \<Longrightarrow> a \<noteq> NaN \<and> b \<noteq> NaN"
  by (cases a; cases b) (simp_all add: js_ge_def js_eq_def)

lemma Math_max_0_ge: "v \<noteq> NaN \<Longrightarrow> js_ge (Math_max (Fin 0) v) (Fin 0)"
  by (cases v) (auto simp: Math_max_def js_ge_def js_eq_def)

lemma rnd_5_2 [simp]: "rnd (5 / 2) = Fin (5 / 2)"
  using rnd_halves[of 5] by simp

lemma rnd_3_2 [simp]: "rnd (3 / 2) = Fin (3 / 2)"
  using rnd_halves[of 3] by simp

lemma rnd_1_2 [simp]: "rnd (1 / 2) = Fin (1 / 2)"
  using rnd_halves[of 1] by simp

section \<open>Facts about the calendar and the day keys\<close>

lemma int_div_bounds:
  fixes a b :: int
  assumes "0 < b"
  shows "b * (a div b) \<le> a" "a < b * (a div b) + b"
proof -
  have "b * (a div b) + a mod b = a" by simp
  moreover have "0 \<le> a mod b" "a mod b < b" using assms by simp_all
  ultimately show "b * (a div b) \<le> a" "a < b * (a div b) + b" by linarith+
qed

lemma DayFromYear_enclosed:
  assumes "146097 * (y - 1970) \<le> 400 * d" "400 * d < 146097 * (y - 1970) + 146097"
  shows "DayFromYear (y - 1) \<le> d" "d < DayFromYear (y + 2)"
proof -
  have e: "146097 * y - 287811090 \<le> 400 * d" "400 * d < 146097 * y - 287664993"
    using assms by simp_all
  define a where "a = (y - 1 - 1969) div 4"
  define b where "b = (y - 1 - 1901) div 100"
  define c where "c = (y - 1 - 1601) div 400"
  have "4 * a \<le> y - 1 - 1969" "y - 1 - 1901 < 100 * b + 100" "400 * c \<le> y - 1 - 1601"
    unfolding a_def b_def c_def by (rule int_div_bounds, simp)+
  moreover have "DayFromYear (y - 1) = 365 * y - 719415 + a - b + c"
    by (simp add: DayFromYear_def a_def b_def c_def)
  ultimately show "DayFromYear (y - 1) \<le> d" using e by linarith
  define a' where "a' = (y + 2 - 1969) div 4"
  define b' where "b' = (y + 2 - 1901) div 100"
  define c' where "c' = (y + 2 - 1601) div 400"
  have "y + 2 - 1969 < 4 * a' + 4" "100 * b' \<le> y + 2 - 1901" "y + 2 - 1601 < 400 * c' + 400"
    unfolding a'_def b'_def c'_def by (rule int_div_bounds, simp)+
  moreover have "DayFromYear (y + 2) = 365 * y - 718320 + a' - b' + c'"
    by (simp add: DayFromYear_def a'_def b'_def c'_def)
  ultimately show "d < DayFromYear (y + 2)" using e by linarith
qed

lemma YearFromDay_bounds:
  "DayFromYear (YearFromDay d) \<le> d \<and> d < DayFromYear (YearFromDay d + 1)"
proof -
  define y where "y = 1970 + (400 * d) div 146097"
  have e: "146097 * (y - 1970) \<le> 400 * d" "400 * d < 146097 * (y - 1970) + 146097"
    using int_div_bounds[of 146097 "400 * d", OF zero_less_numeral] by (simp_all add: y_def)
  note b = DayFromYear_enclosed[OF e]
  have yfd: "YearFromDay d = (if d < DayFromYear y then y - 1
                              else if DayFromYear (y + 1) \<le> d then y + 1 else y)"
    by (simp add: YearFromDay_def Let_def y_def)
  have 2: "y + 1 + 1 = y + 2" by simp
  show ?thesis
    using b unfolding yfd by (auto simp: 2)
qed

lemma div_Suc_int:
  fixes a b :: int
  assumes "0 < b"
  shows "(a + 1) div b = a div b + (if (a + 1) mod b = 0 then 1 else 0)"
proof -
  define q where "q = a div b"
  define r where "r = a mod b"
  have a: "a = b * q + r" by (simp add: q_def r_def)
  have r: "0 \<le> r" "r < b" using assms by (simp_all add: r_def)
  show ?thesis
  proof (cases "r = b - 1")
    case True
    have 1: "a + 1 = b * (q + 1) + 0" using a True by (simp add: algebra_simps)
    have "(a + 1) div b = q + 1" using 1 assms by (intro int_div_pos_eq[of _ _ _ 0]) simp_all
    moreover have "(a + 1) mod b = 0" using 1 assms by (intro int_mod_pos_eq[of _ _ "q + 1"]) simp_all
    ultimately show ?thesis by (simp add: q_def)
  next
    case False
    have 1: "a + 1 = b * q + (r + 1)" using a by simp
    have r1: "0 \<le> r + 1" "r + 1 < b" using r False by simp_all
    have "(a + 1) div b = q" using 1 r1 by (rule int_div_pos_eq)
    moreover have "(a + 1) mod b = r + 1" using 1 r1 by (rule int_mod_pos_eq)
    ultimately show ?thesis using r by (simp add: q_def)
  qed
qed

lemma DayFromYear_Suc: "DayFromYear (y + 1) = DayFromYear y + 365 + leapDays y"
proof -
  have "(y + 4 * (- 492)) mod 4 = y mod 4" by (rule mod_mult_self2)
  then have m4: "(y - 1969 + 1) mod 4 = 0 \<longleftrightarrow> y mod 4 = 0" by simp
  have "(y + 100 * (- 19)) mod 100 = y mod 100" by (rule mod_mult_self2)
  then have m100: "(y - 1901 + 1) mod 100 = 0 \<longleftrightarrow> y mod 100 = 0" by simp
  have "(y + 400 * (- 4)) mod 400 = y mod 400" by (rule mod_mult_self2)
  then have m400: "(y - 1601 + 1) mod 400 = 0 \<longleftrightarrow> y mod 400 = 0" by simp
  have i: "y mod 400 = 0 \<Longrightarrow> y mod 100 = 0" "y mod 100 = 0 \<Longrightarrow> y mod 4 = 0"
    using dvd_trans[of 100 400 y] dvd_trans[of 4 100 y] by (simp_all add: mod_eq_0_iff_dvd)
  have "y + 1 - 1969 = y - 1969 + 1" "y + 1 - 1901 = y - 1901 + 1" "y + 1 - 1601 = y - 1601 + 1"
    "y + 1 - 1970 = y - 1970 + 1" by simp_all
  then show ?thesis
    using i unfolding DayFromYear_def leapDays_def InLeapYear_def
    by (simp only: div_Suc_int[of 4] div_Suc_int[of 100] div_Suc_int[of 400] m4 m100 m400)
       (auto simp: algebra_simps)
qed

lemma leapDays_range: "0 \<le> leapDays y" "leapDays y \<le> 1"
  by (simp_all add: leapDays_def)

lemma DayFromYear_add: "DayFromYear y + 365 * int n \<le> DayFromYear (y + int n)"
proof (induction n)
  case 0
  then show ?case by simp
next
  case (Suc n)
  have "y + int (Suc n) = y + int n + 1" by simp
  then have "DayFromYear (y + int (Suc n)) = DayFromYear (y + int n + 1)" by (rule arg_cong)
  also have "\<dots> = DayFromYear (y + int n) + 365 + leapDays (y + int n)" by (rule DayFromYear_Suc)
  finally show ?case using Suc leapDays_range(1)[of "y + int n"] by simp
qed

lemma DayFromYear_mono: "y \<le> y' \<Longrightarrow> DayFromYear y \<le> DayFromYear y'"
  using DayFromYear_add[of y "nat (y' - y)"] by simp

lemma DayFromYear_strict_mono: "y < y' \<Longrightarrow> DayFromYear y < DayFromYear y'"
  using DayFromYear_add[of y "nat (y' - y)"] by simp

lemma YearFromDay_range:
  assumes "DayFromYear lo \<le> d" "d < DayFromYear hi"
  shows "lo \<le> YearFromDay d" "YearFromDay d < hi"
proof -
  note b = YearFromDay_bounds[of d]
  show "lo \<le> YearFromDay d"
  proof (rule ccontr)
    assume "\<not> lo \<le> YearFromDay d"
    then have "DayFromYear (YearFromDay d + 1) \<le> DayFromYear lo" by (intro DayFromYear_mono) simp
    then show False using b assms(1) by linarith
  qed
  show "YearFromDay d < hi"
  proof (rule ccontr)
    assume "\<not> YearFromDay d < hi"
    then have "DayFromYear hi \<le> DayFromYear (YearFromDay d)" by (intro DayFromYear_mono) simp
    then show False using b assms(2) by linarith
  qed
qed

lemma DayWithinYear_range:
  "0 \<le> DayWithinYear d" "DayWithinYear d < 365 + leapDays (YearFromDay d)"
  using YearFromDay_bounds[of d] DayFromYear_Suc[of "YearFromDay d"]
  by (simp_all add: DayWithinYear_def)

lemma monthStart_eval:
  "monthStart y 0 = 0" "monthStart y 1 = 31" "monthStart y 2 = 59 + leapDays y"
  "monthStart y 3 = 90 + leapDays y" "monthStart y 4 = 120 + leapDays y"
  "monthStart y 5 = 151 + leapDays y" "monthStart y 6 = 181 + leapDays y"
  "monthStart y 7 = 212 + leapDays y" "monthStart y 8 = 243 + leapDays y"
  "monthStart y 9 = 273 + leapDays y" "monthStart y 10 = 304 + leapDays y"
  "monthStart y 11 = 334 + leapDays y"
  by (simp_all add: monthStart_def Let_def)

lemma month_and_date:
  "0 \<le> MonthFromDay d \<and> MonthFromDay d \<le> 11 \<and> 1 \<le> DateFromDay d \<and> DateFromDay d \<le> 31
   \<and> monthStart (YearFromDay d) (MonthFromDay d) + DateFromDay d - 1 = DayWithinYear d"
proof -
  define w where "w = DayWithinYear d"
  define l where "l = leapDays (YearFromDay d)"
  have r: "0 \<le> w" "w < 365 + l" "0 \<le> l" "l \<le> 1"
    using DayWithinYear_range[of d] leapDays_range[of "YearFromDay d"] by (simp_all add: w_def l_def)
  show ?thesis
    unfolding MonthFromDay_def DateFromDay_def Let_def monthStart_eval w_def[symmetric] l_def[symmetric]
    using r by (simp add: monthStart_eval l_def[symmetric])
qed

lemma MakeDay_of_day:
  "MakeDay (YearFromDay d) (MonthFromDay d) (DateFromDay d + n) = d + n"
proof -
  note m = month_and_date[of d]
  have "MonthFromDay d div 12 = 0" "MonthFromDay d mod 12 = MonthFromDay d"
    using m by simp_all
  then show ?thesis using m by (simp add: MakeDay_def Let_def DayWithinYear_def)
qed

lemma Day_of_midnight [simp]: "Day (d * msPerDay) = d"
  by (simp add: Day_def msPerDay_def)

lemma setUTCDate_add_midnight: "setUTCDate_add (d * msPerDay) n = (d + n) * msPerDay"
  by (simp add: setUTCDate_add_def MakeDay_of_day)

subsection \<open>Day keys of four-digit years\<close>

lemma digitChar_props:
  assumes "0 \<le> k" "k \<le> 9"
  shows "isDigit (digitChar k)" "digitVal (digitChar k) = k"
proof -
  have "k = 0 \<or> k = 1 \<or> k = 2 \<or> k = 3 \<or> k = 4 \<or> k = 5 \<or> k = 6 \<or> k = 7 \<or> k = 8 \<or> k = 9"
    using assms by arith
  then show "isDigit (digitChar k)" "digitVal (digitChar k) = k"
    by (auto simp: digitChar_def isDigit_def digitVal_def)
qed

lemma showDigits_1: "0 \<le> n \<Longrightarrow> n \<le> 9 \<Longrightarrow> showDigits n = [digitChar n]"
  by (simp add: showDigits.simps)

lemma showDigits_2:
  assumes "10 \<le> n" "n \<le> 99"
  shows "showDigits n = [digitChar (n div 10), digitChar (n mod 10)]"
proof -
  have "0 \<le> n div 10" "n div 10 \<le> 9" using assms by simp_all
  then show ?thesis using assms showDigits.simps[of n] by (simp add: showDigits_1)
qed

lemma showDigits_4:
  assumes "1000 \<le> n" "n \<le> 9999"
  shows "showDigits n = [digitChar (n div 1000), digitChar (n div 100 mod 10),
                         digitChar (n div 10 mod 10), digitChar (n mod 10)]"
proof -
  have a: "n div 10 div 10 = n div 100" "n div 100 div 10 = n div 1000"
    by (simp_all add: div_mult2_eq[symmetric])
  have b: "10 \<le> n div 100" "n div 100 \<le> 99" "\<not> n div 10 < 10" "\<not> n < 10" using assms by simp_all
  have "showDigits n = showDigits (n div 10) @ [digitChar (n mod 10)]"
    using b showDigits.simps[of n] by simp
  also have "showDigits (n div 10) = showDigits (n div 100) @ [digitChar (n div 10 mod 10)]"
    using b showDigits.simps[of "n div 10"] by (simp add: a)
  also have "showDigits (n div 100) = [digitChar (n div 1000), digitChar (n div 100 mod 10)]"
    using showDigits_2[OF b(1,2)] by (simp add: a)
  finally show ?thesis by simp
qed

lemma pad2_two_digits:
  assumes "0 \<le> n" "n \<le> 99"
  shows "pad2 n = [digitChar (n div 10), digitChar (n mod 10)]"
proof (cases "n \<le> 9")
  case True
  then have "n div 10 = 0" "n mod 10 = n" using assms by simp_all
  then show ?thesis using True assms
    by (simp add: pad2_def String_int_def showDigits_1 Let_def digitChar_def)
next
  case False
  then show ?thesis using assms
    by (simp add: pad2_def String_int_def showDigits_2 Let_def)
qed

lemma four_digits_value:
  fixes n :: int
  shows "1000 * (n div 1000) + 100 * (n div 100 mod 10) + 10 * (n div 10 mod 10) + n mod 10 = n"
proof -
  have a: "n div 10 div 10 = n div 100" "n div 100 div 10 = n div 1000"
    by (simp_all add: div_mult2_eq[symmetric])
  have 1: "n = 10 * (n div 10) + n mod 10" by simp
  have 2: "n div 10 = 10 * (n div 100) + n div 10 mod 10"
    using mult_div_mod_eq[of 10 "n div 10"] by (simp add: a)
  have 3: "n div 100 = 10 * (n div 1000) + n div 100 mod 10"
    using mult_div_mod_eq[of 10 "n div 100"] by (simp add: a)
  show ?thesis using 1 2 3 by linarith
qed

lemma two_digits_value: fixes n :: int shows "10 * (n div 10) + n mod 10 = n"
  by simp

lemma matchDayKey_digits:
  assumes "isDigit a" "isDigit b" "isDigit c" "isDigit d" "isDigit f" "isDigit g"
    "isDigit h" "isDigit i"
  shows "matchDayKey [a, b, c, d, CHR ''-'', f, g, CHR ''-'', h, i]
           = Some (digitsToInt [a, b, c, d], digitsToInt [f, g], digitsToInt [h, i])"
  using assms by (simp add: matchDayKey_def)

lemma digitsToInt_4:
  assumes "0 \<le> a" "a \<le> 9" "0 \<le> b" "b \<le> 9" "0 \<le> c" "c \<le> 9" "0 \<le> d" "d \<le> 9"
  shows "digitsToInt [digitChar a, digitChar b, digitChar c, digitChar d]
           = 1000 * a + 100 * b + 10 * c + d"
  using assms by (simp add: digitsToInt_def digitChar_props)

lemma digitsToInt_2:
  assumes "0 \<le> a" "a \<le> 9" "0 \<le> b" "b \<le> 9"
  shows "digitsToInt [digitChar a, digitChar b] = 10 * a + b"
  using assms by (simp add: digitsToInt_def digitChar_props)

lemma matchDayKey_formatted:
  assumes "1000 \<le> y" "y \<le> 9999" "0 \<le> m" "m \<le> 99" "0 \<le> dd" "dd \<le> 99"
  shows "matchDayKey (String_int y @ ''-'' @ pad2 m @ ''-'' @ pad2 dd) = Some (y, m, dd)"
proof -
  have s: "String_int y = [digitChar (y div 1000), digitChar (y div 100 mod 10),
                         digitChar (y div 10 mod 10), digitChar (y mod 10)]"
    using assms(1,2) by (simp add: String_int_def showDigits_4)
  have r: "0 \<le> y div 1000" "y div 1000 \<le> 9" "0 \<le> m div 10" "m div 10 \<le> 9"
    "0 \<le> dd div 10" "dd div 10 \<le> 9"
    using assms by simp_all
  have m10: "0 \<le> k mod 10" "k mod 10 \<le> 9" for k :: int by simp_all
  note dp = digitChar_props(1)
  have k: "String_int y @ ''-'' @ pad2 m @ ''-'' @ pad2 dd
      = [digitChar (y div 1000), digitChar (y div 100 mod 10), digitChar (y div 10 mod 10),
         digitChar (y mod 10), CHR ''-'', digitChar (m div 10), digitChar (m mod 10), CHR ''-'',
         digitChar (dd div 10), digitChar (dd mod 10)]"
    unfolding s pad2_two_digits[OF assms(3,4)] pad2_two_digits[OF assms(5,6)] by simp
  have v4: "digitsToInt [digitChar (y div 1000), digitChar (y div 100 mod 10),
      digitChar (y div 10 mod 10), digitChar (y mod 10)] = y"
    unfolding digitsToInt_4[OF r(1,2) m10 m10 m10] by (rule four_digits_value)
  have v2: "digitsToInt [digitChar (m div 10), digitChar (m mod 10)] = m"
    "digitsToInt [digitChar (dd div 10), digitChar (dd mod 10)] = dd"
    unfolding digitsToInt_2[OF r(3,4) m10] digitsToInt_2[OF r(5,6) m10] by simp_all
  show ?thesis
    unfolding k
    by (simp only: matchDayKey_digits[OF dp[OF r(1,2)] dp[OF m10] dp[OF m10] dp[OF m10]
          dp[OF r(3,4)] dp[OF m10] dp[OF r(5,6)] dp[OF m10]] v4 v2)
qed

lemma key_of_day:
  assumes "DayFromYear 1000 \<le> d" "d < DayFromYear 10000"
  shows "matchDayKey (dateKeyFromUTCDate (d * msPerDay))
           = Some (YearFromDay d, MonthFromDay d + 1, DateFromDay d)"
proof -
  have y: "1000 \<le> YearFromDay d" "YearFromDay d \<le> 9999"
    using YearFromDay_range[OF assms] by simp_all
  note m = month_and_date[of d]
  show ?thesis
    unfolding dateKeyFromUTCDate_def Day_of_midnight
    using m by (intro matchDayKey_formatted y) simp_all
qed

lemma dayNumber_of_key:
  assumes "DayFromYear 1000 \<le> d" "d < DayFromYear 10000"
  shows "dayNumberUTC e (dateKeyFromUTCDate (d * msPerDay)) = d"
    and "testDayKey (dateKeyFromUTCDate (d * msPerDay))"
proof -
  have y: "1000 \<le> YearFromDay d" using YearFromDay_range[OF assms] by simp
  have "Date_UTC (YearFromDay d) (MonthFromDay d + 1 - 1) (DateFromDay d) = d * msPerDay"
    using y MakeDay_of_day[of d 0] by (simp add: Date_UTC_def Let_def)
  moreover have "d * msPerDay div 86400000 = d" by (simp add: msPerDay_def)
  ultimately show "dayNumberUTC e (dateKeyFromUTCDate (d * msPerDay)) = d"
    by (simp add: dayNumberUTC_def key_of_day[OF assms])
  show "testDayKey (dateKeyFromUTCDate (d * msPerDay))"
    by (simp add: testDayKey_def key_of_day[OF assms])
qed

lemma Date_UTC_midnight: "Date_UTC y m dd = (Date_UTC y m dd div 86400000) * msPerDay"
  by (simp add: Date_UTC_def Let_def msPerDay_def)

lemma addDaysKey_wellformed:
  assumes "testDayKey k"
  shows "addDaysKey e k n = dateKeyFromUTCDate ((dayNumberUTC e k + n) * msPerDay)"
proof -
  obtain y mo da where p: "matchDayKey k = Some (y, mo, da)"
    using assms by (auto simp: testDayKey_def)
  have "setUTCDate_add (Date_UTC y (mo - 1) da) n
          = (Date_UTC y (mo - 1) da div 86400000 + n) * msPerDay"
    using setUTCDate_add_midnight[of "Date_UTC y (mo - 1) da div 86400000" n]
      Date_UTC_midnight[of y "mo - 1" da] by simp
  then show ?thesis by (simp add: addDaysKey_def dayNumberUTC_def p)
qed

lemma addDaysKey_malformed: "\<not> testDayKey k \<Longrightarrow> addDaysKey e k n = localDateKey e"
  by (cases "matchDayKey k") (simp_all add: addDaysKey_def testDayKey_def)

section \<open>The rollover loop\<close>

subsection \<open>One round of the rollover loop\<close>

lemma trySecureToday_hopper [simp]: "hopper (fst (trySecureToday e t r)) = hopper t"
  by (simp add: trySecureToday_def)

lemma trySecureToday_dayKey [simp]: "dayKey (fst (trySecureToday e t r)) = dayKey t"
  by (simp add: trySecureToday_def)

lemma trySecureToday_snd:
  "snd (trySecureToday e t r) = (\<not> securedToday t \<and> js_ge (hopper t) (js_sub DAILY_THRESHOLD EPS))"
  by (simp add: trySecureToday_def)

lemma rolloverStep_hopper:
  "hopper (fst (rolloverStep e s)) = decayHopper (hopper (fst s))"
  by (simp add: rolloverStep_def Let_def decayHopper_def)

lemma rolloverStep_dayKey:
  "dayKey (fst (rolloverStep e s)) = addDaysKey e (dayKey (fst s)) 1"
  by (simp add: rolloverStep_def Let_def)

lemma rolloverStep_changed: "snd (rolloverStep e s) = True"
  by (simp add: rolloverStep_def Let_def)

lemma rolloverStep_secured:
  "securedToday (fst (rolloverStep e s))
     = js_ge (decayHopper (hopper (fst s))) (js_sub DAILY_THRESHOLD EPS)"
  by (simp add: rolloverStep_def Let_def trySecureToday_def decayHopper_def)

lemma rolloverStep_streak:
  "streak (fst (rolloverStep e s)) =
     (let s0 = (if \<not> securedToday (fst s) \<and> \<not> js_eq (streak (fst s)) (Fin 0) then Fin 0
                else streak (fst s))
      in if js_ge (decayHopper (hopper (fst s))) (js_sub DAILY_THRESHOLD EPS)
         then js_add (if isInteger s0 then s0 else Fin 0) (Fin 1) else s0)"
  by (simp add: rolloverStep_def Let_def trySecureToday_def decayHopper_def)

lemma rolloverLoop_hopper:
  "hopper (fst (rolloverLoop e n s)) = (decayHopper ^^ n) (hopper (fst s))"
  by (induction n arbitrary: s) (simp_all add: rolloverStep_hopper funpow_swap1)

lemma rolloverLoop_changed: "0 < n \<Longrightarrow> snd (rolloverLoop e n s) = True"
proof (induction n arbitrary: s)
  case 0
  then show ?case by simp
next
  case (Suc n)
  then show ?case by (cases n) (simp_all add: rolloverStep_changed)
qed

lemma js_str_lt_irrefl [simp]: "\<not> js_str_lt k k"
  by (induction k) simp_all

lemma dayDiff_same [simp]: "dayDiff e k k = 0"
  by (simp add: dayDiff_def)

lemma commentedDecay_35: "commentedDecay (Fin (7 / 2)) = Fin (7093169413108531 / 2251799813685248)"
  by code_simp

lemma decay_nonneg:
  assumes "js_ge h (Fin 0)"
  shows "js_ge (decayHopper h) (Fin 0)"
proof -
  have "h \<noteq> NaN" using assms js_ge_not_NaN by blast
  then show ?thesis unfolding decayHopper_def by (intro Math_max_0_ge js_sub_not_NaN)
qed

lemma rolloverLoop_nonneg:
  "js_ge (hopper (fst s)) (Fin 0) \<Longrightarrow> js_ge (hopper (fst (rolloverLoop e n s))) (Fin 0)"
proof (induction n arbitrary: s)
  case 0
  then show ?case by simp
next
  case (Suc n)
  have "js_ge (hopper (fst (rolloverStep e s))) (Fin 0)"
    using Suc.prems by (simp add: rolloverStep_hopper decay_nonneg)
  then show ?case using Suc.IH by simp
qed

lemma prepare_hopper [simp]:
  "hopper (fst (clampDayKey (repairDayKey t k) k)) = hopper t"
  by (simp add: clampDayKey_def repairDayKey_def)

lemma isInteger_of_int [simp]: "isInteger (Fin (of_int s))"
  by simp

lemma js_add_Fin: "js_add (Fin x) (Fin y) = rnd (x + y)"
  by simp

lemma increment_safe_integer:
  assumes "\<bar>s\<bar> < 2 ^ 53"
  shows "js_add (Fin (of_int s)) (Fin 1) = Fin (of_int (s + 1))"
proof -
  have "rnd (of_int (s + 1)) = Fin (of_int (s + 1))" using assms by (intro rnd_int) simp
  then show ?thesis by simp
qed

lemma secures_0999999999: "js_ge (rnd (999999999 / 10 ^ 9)) (js_sub DAILY_THRESHOLD EPS)"
  by (simp only: literal_0999999999 threshold_eval js_ge_Fin order_refl)

lemma not_secures_099: "\<not> js_ge (rnd (99 / 100)) (js_sub DAILY_THRESHOLD EPS)"
  by (simp add: literal_099 threshold_eval)

lemma no_repair:
  assumes "testDayKey (dayKey t)" "\<not> js_str_gt (dayKey t) todayKey"
  shows "clampDayKey (repairDayKey t todayKey) todayKey = (t, False)"
  using assms by (simp add: clampDayKey_def repairDayKey_def)

lemma catchup_by_steps:
  assumes "testDayKey (dayKey t)" "\<not> js_str_gt (dayKey t) todayKey"
    and "0 < dayDiff e (dayKey t) todayKey"
  shows "processTaskToToday e t todayKey
           = rolloverLoop e (nat (dayDiff e (dayKey t) todayKey)) (t, False)"
  using assms(3) unfolding processTaskToToday_def Let_def no_repair[OF assms(1,2)]
  by simp

lemma thr_5_2: "js_ge (decayHopper (Fin (7 / 2))) (js_sub DAILY_THRESHOLD EPS)"
  "decayHopper (Fin (7 / 2)) = Fin (5 / 2)"
  by (simp_all add: decayHopper_def Math_max_def threshold_eval)

lemma thr_3_2: "js_ge (decayHopper (Fin (5 / 2))) (js_sub DAILY_THRESHOLD EPS)"
  "decayHopper (Fin (5 / 2)) = Fin (3 / 2)"
  by (simp_all add: decayHopper_def Math_max_def threshold_eval)

lemma thr_1_2: "\<not> js_ge (decayHopper (Fin (3 / 2))) (js_sub DAILY_THRESHOLD EPS)"
  "decayHopper (Fin (3 / 2)) = Fin (1 / 2)"
  by (simp_all add: decayHopper_def Math_max_def threshold_eval)

lemma three_rounds:
  fixes e :: env and t :: task and c :: bool
  assumes "hopper t = Fin (7 / 2)" "\<not> securedToday t"
  defines "s1 \<equiv> rolloverStep e (t, c)"
  defines "s2 \<equiv> rolloverStep e s1"
  defines "s3 \<equiv> rolloverStep e s2"
  shows "hopper (fst s1) = Fin (5 / 2) \<and> securedToday (fst s1) \<and> streak (fst s1) = Fin 1"
    and "hopper (fst s2) = Fin (3 / 2) \<and> securedToday (fst s2) \<and> streak (fst s2) = Fin 2"
    and "hopper (fst s3) = Fin (1 / 2) \<and> \<not> securedToday (fst s3) \<and> streak (fst s3) = Fin 2"
    and "snd s3"
proof -
  show 1: "hopper (fst s1) = Fin (5 / 2) \<and> securedToday (fst s1) \<and> streak (fst s1) = Fin 1"
    using assms(1,2) thr_5_2
    by (auto simp: s1_def rolloverStep_hopper rolloverStep_secured rolloverStep_streak js_eq_def)
  show 2: "hopper (fst s2) = Fin (3 / 2) \<and> securedToday (fst s2) \<and> streak (fst s2) = Fin 2"
    using 1 thr_3_2
    by (auto simp: s2_def rolloverStep_hopper rolloverStep_secured rolloverStep_streak)
  show "hopper (fst s3) = Fin (1 / 2) \<and> \<not> securedToday (fst s3) \<and> streak (fst s3) = Fin 2"
    using 2 thr_1_2
    by (auto simp: s3_def rolloverStep_hopper rolloverStep_secured rolloverStep_streak)
  show "snd s3" by (simp add: s3_def rolloverStep_changed)
qed


lemma rolloverLoop_3: "rolloverLoop e 3 s = rolloverStep e (rolloverStep e (rolloverStep e s))"
  by (simp add: numeral_3_eq_3)

lemma rolloverLoop_1: "rolloverLoop e 1 s = rolloverStep e s"
  by simp

lemma one_day_streak:
  assumes "testDayKey (dayKey t)" "\<not> js_str_gt (dayKey t) todayKey"
    and "dayDiff e (dayKey t) todayKey = 1"
    and "\<not> securedToday t" "js_gt (streak t) (Fin 0)"
  shows "streak (fst (processTaskToToday e t todayKey))
           = (if js_ge (decayHopper (hopper t)) (js_sub DAILY_THRESHOLD EPS) then Fin 1 else Fin 0)"
proof -
  have p: "processTaskToToday e t todayKey = rolloverStep e (t, False)"
    using catchup_by_steps[OF assms(1,2)] assms(3) by simp
  have "\<not> js_eq (streak t) (Fin 0)"
    using assms(5) by (cases "streak t") (auto simp: js_gt_def js_eq_def)
  then show ?thesis using assms(4) by (simp add: p rolloverStep_streak)
qed

subsection \<open>Day keys of the examples\<close>

lemma example_wellformed: "testDayKey ''2024-03-02''" "testDayKey ''2024-03-04''"
  by code_simp+

lemma example_not_ahead:
  "\<not> js_str_gt ''2024-03-02'' ''2024-03-05''" "\<not> js_str_gt ''2024-03-04'' ''2024-03-05''"
  "js_str_gt ''2024-03-09'' ''2024-03-05''"
  by code_simp+

lemma example_diff: "dayDiff e ''2024-03-02'' ''2024-03-05'' = 3"
  "dayDiff e ''2024-03-04'' ''2024-03-05'' = 1"
  by code_simp+

subsection \<open>The hopper addition\<close>

lemma addFound_Reply:
  "fst (addFound e st ident amount r) = Reply code msg \<Longrightarrow> snd (addFound e st ident amount r) = st"
  by (cases r) (simp_all add: Let_def)

lemma addAmount_Reply:
  "fst (addAmount e st ident a) = Reply code msg \<Longrightarrow> snd (addAmount e st ident a) = st"
  by (cases a) (auto simp: addFound_Reply split: if_splits)

lemma addToHopper_Reply:
  "fst (addToHopper e st ident body) = Reply code msg \<Longrightarrow> snd (addToHopper e st ident body) = st"
  by (auto simp: addToHopper_def addAmount_Reply split: if_splits)

lemma addAmount_Thrown:
  "fst (addAmount e st ident a) = Thrown msg \<Longrightarrow> snd (addAmount e st ident a) = st"
  by (cases a; cases "find (\<lambda>x. task_id x = ident) (tasks st)")
     (auto simp: Let_def split: if_splits)

lemma addToHopper_Thrown:
  "fst (addToHopper e st ident body) = Thrown msg \<Longrightarrow> snd (addToHopper e st ident body) = st"
  by (auto simp: addToHopper_def addAmount_Thrown split: if_splits)

subsection \<open>Overflow in \<open>roundTo\<close>\<close>

lemma roundTo_not_NaN [simp]: "roundTo n \<noteq> NaN"
proof (cases n)
  case (Fin x)
  have m: "js_mul v (Fin (10 ^ 6)) \<noteq> NaN" if "v \<noteq> NaN" for v
    using that by (cases v) (simp_all add: signedInf_def)
  have r: "Math_round v \<noteq> NaN" if "v \<noteq> NaN" for v
    using that by (cases v) simp_all
  have d: "js_div v (Fin (10 ^ 6)) \<noteq> NaN" if "v \<noteq> NaN" for v
    using that by (cases v) (simp_all add: signedInf_def)
  have "js_add (Fin x) Number_EPSILON \<noteq> NaN" by (simp add: Number_EPSILON_def)
  then show ?thesis using Fin m r d by (simp add: roundTo_def Let_def del: js_add.simps js_mul.simps js_div.simps)
qed (simp_all add: roundTo_def)

lemma pow2_1006_1005: "- pow2 1006 + pow2 (- 52) \<le> - pow2 1005"
proof -
  have "pow2 1006 = pow2 1005 * pow2 1" by (simp add: pow2_add[symmetric])
  moreover have "pow2 (- 52) \<le> pow2 1005" by (intro pow2_mono) simp
  moreover have "pow2 1 = 2" by (simp add: pow2_def)
  ultimately show ?thesis by simp
qed

lemma roundTo_negative_overflow:
  assumes "b \<le> - pow2 1006"
  shows "roundTo (Fin b) = NInf"
proof -
  have "b + pow2 (- 52) \<le> - pow2 1005" using assms pow2_1006_1005 by linarith
  then have "rnd (b + pow2 (- 52)) = NInf \<or> (\<exists>c. rnd (b + pow2 (- 52)) = Fin c \<and> c \<le> - pow2 1005)"
    by (intro rnd_neg_upper) simp_all
  moreover have "js_mul (Fin c) (Fin (10 ^ 6)) = NInf" if "c \<le> - pow2 1005" for c
  proof -
    have c0: "c < 0" using that pow2_pos[of 1005] by linarith
    have "pow2 1024 = pow2 1005 * pow2 19" by (simp add: pow2_add[symmetric])
    also have "\<dots> \<le> pow2 1005 * 10 ^ 6" using pow2_pos[of 1005] by (intro mult_left_mono) (simp_all add: pow2_def)
    also have "\<dots> \<le> (- c) * 10 ^ 6" using that by (intro mult_right_mono) simp_all
    finally have "pow2 1024 \<le> \<bar>c * 10 ^ 6\<bar>" using c0 by (simp add: abs_mult)
    then have "rnd (c * 10 ^ 6) = NInf" using c0 by (simp add: rnd_overflow mult_less_0_iff)
    then show ?thesis by simp
  qed
  ultimately have "js_mul (rnd (b + pow2 (- 52))) (Fin (10 ^ 6)) = NInf"
    by (auto simp: signedInf_def)
  then show ?thesis
    by (simp add: roundTo_def Let_def Number_EPSILON_def signedInf_def del: js_mul.simps)
qed

lemma rnd_stays_below:
  assumes "x \<le> - pow2 1006" "- pow2 1007 \<le> x"
  shows "\<exists>y. rnd x = Fin y \<and> y \<le> - pow2 1006 \<and> - pow2 1007 \<le> y"
proof -
  have x0: "x < 0" using assms(1) pow2_pos[of 1006] by linarith
  obtain y where y: "rnd x = Fin y" "- pow2 1007 \<le> y"
    using rnd_neg_lower[OF x0 assms(2)] by auto
  have "y \<le> - pow2 1006" using rnd_neg_upper[OF assms(1)] y(1) by auto
  then show ?thesis using y by blast
qed

lemma minus_1e303_bounds: "- (10 ^ 303) \<le> - pow2 1006" "- pow2 1007 \<le> - (10 ^ 303 :: rat)"
  by (simp_all add: pow2_def)

lemma caught_up_noop:
  assumes "testDayKey (dayKey t)" "\<not> js_str_gt (dayKey t) todayKey"
    and "dayDiff e (dayKey t) todayKey \<le> 0"
  shows "processTaskToToday e t todayKey = (t, False)"
  using assms(3) unfolding processTaskToToday_def Let_def no_repair[OF assms(1,2)] by simp

lemma example_today: "testDayKey ''2024-03-05''"
  by code_simp

lemma exampleState_up_to_date: "processAllToToday exampleEnv exampleState = (exampleState, False)"
proof -
  let ?t = "exampleTask\<lparr> task_id := ''t2'', hopper := Fin 0, streak := Fin 0,
                  dayKey := ''2024-03-05'' \<rparr>"
  have "processTaskToToday exampleEnv ?t ''2024-03-05'' = (?t, False)"
    by (rule caught_up_noop) (simp_all add: example_today js_str_gt_def)
  then have "processOne exampleEnv ''2024-03-05'' ?t = (?t, False)"
    by (simp add: processOne_def Let_def)
  then show ?thesis
    by (simp add: processAllToToday_def Let_def exampleState_def exampleEnv_def)
qed

lemma js_add_NaN_right [simp]: "js_add h NaN = NaN"
  by (cases h) simp_all

lemma roundTo_NaN [simp]: "roundTo NaN = Fin 0"
  by (simp add: roundTo_def)

lemma not_secured_at_zero: "\<not> js_ge (Fin 0) (js_sub DAILY_THRESHOLD EPS)"
  by (simp add: threshold_eval)

text \<open>An amount that is not a finite number: the addition succeeds and leaves hopper 0.\<close>

lemma add_non_finite_amount:
  assumes "body \<noteq> JNull" "toNumber e (getProp body ''amount'') = Inr n" "\<not> isFinite n"
    and "find (\<lambda>x. task_id x = ident) (tasks st) = Some t"
  shows "fst (addToHopper e st ident body)
           = ReplyAdded (t\<lparr>hopper := Fin 0, updatedAt := Fin (of_int (now e))\<rparr>) False"
  using assms not_secured_at_zero
  by (simp add: addToHopper_def Let_def asSafeNumber_def js_gt_def trySecureToday_def)

subsection \<open>\<open>normalizeTask\<close>\<close>

lemma last_dropWhile: "dropWhile P xs \<noteq> [] \<Longrightarrow> last (dropWhile P xs) = last xs"
  by (metis last_appendR takeWhile_dropWhile_id)

lemma trim_idem: "trim (trim s) = trim s"
proof -
  define ys where "ys = dropWhile isWhiteSpace s"
  define A where "A = dropWhile isWhiteSpace (rev ys)"
  have t: "trim s = rev A" by (simp add: trim_def A_def ys_def)
  have "dropWhile isWhiteSpace (rev A) = rev A"
  proof (cases "A = []")
    case True
    then show ?thesis by simp
  next
    case False
    then have ne: "rev ys \<noteq> []" by (auto simp: A_def)
    have "hd (rev A) = last A" using False by (simp add: hd_rev)
    also have "\<dots> = last (rev ys)" using False unfolding A_def by (rule last_dropWhile)
    also have "\<dots> = hd ys" using ne by (simp add: last_rev)
    finally have "hd (rev A) = hd (dropWhile isWhiteSpace s)" by (simp add: ys_def)
    moreover have "\<not> isWhiteSpace (hd (dropWhile isWhiteSpace s))"
      using ne hd_dropWhile[of isWhiteSpace s] by (simp add: ys_def)
    ultimately show ?thesis by (simp add: dropWhile_eq_self_iff)
  qed
  then have "trim (rev A) = rev (dropWhile isWhiteSpace A)" by (simp add: trim_def)
  also have "dropWhile isWhiteSpace A = A" by (simp add: A_def)
  finally show ?thesis by (simp add: t)
qed

lemma trim_placeholder: "trim ''Untitled task'' = ''Untitled task''"
  by code_simp

lemma trimmedStringOr_ok:
  "trimmedStringOr v ''Untitled task'' \<noteq> []
   \<and> trim (trimmedStringOr v ''Untitled task'') = trimmedStringOr v ''Untitled task''"
  by (induction v "''Untitled task''" rule: trimmedStringOr.induct)
     (simp_all add: trim_idem trim_placeholder)

lemma nonEmptyStringOr_ok: "d \<noteq> [] \<Longrightarrow> nonEmptyStringOr v d \<noteq> []"
  by (induction v d rule: nonEmptyStringOr.induct) simp_all

lemma uploadUrlOrNull_ok: "uploadUrlOrNull v = Some u \<Longrightarrow> startsWith u ''/uploads/''"
  by (induction v rule: uploadUrlOrNull.induct) (simp_all split: if_splits)

lemma integerOrZero_ok: "isInteger (integerOrZero v)"
  by (induction v rule: integerOrZero.induct) simp_all

lemma dayKeyOr_ok: "testDayKey d \<Longrightarrow> testDayKey (dayKeyOr v d)"
  by (induction v d rule: dayKeyOr.induct) simp_all

lemma finiteOr_ok: "isFinite d \<Longrightarrow> isFinite (finiteOr v d)"
  by (induction v d rule: finiteOr.induct) simp_all

lemma finiteOrNull_ok: "finiteOrNull v = Some x \<Longrightarrow> isFinite x"
  by (induction v rule: finiteOrNull.induct) (simp_all split: if_splits)

lemma roundTo_0: "roundTo (Fin 0) = Fin 0"
  by code_simp

lemma roundTo_minus_5: "roundTo (Fin (- 5)) = Fin (- 5)"
  by code_simp

lemma rnd_abs_le:
  assumes "\<bar>x\<bar> \<le> pow2 k" "- 1074 \<le> k" "k \<le> 1023"
  shows "\<exists>y. rnd x = Fin y \<and> \<bar>y\<bar> \<le> pow2 k"
proof -
  consider "x = 0" | "0 < x" | "x < 0" by linarith
  then show ?thesis
  proof cases
    case 1
    then show ?thesis using pow2_pos[of k] by (simp add: less_imp_le)
  next
    case 2
    then have "x \<le> pow2 k" using assms(1) by simp
    then show ?thesis using rnd_pos_upper[OF 2 _ assms(2,3)] by auto
  next
    case 3
    then have "- pow2 k \<le> x" using assms(1) by simp
    then show ?thesis using rnd_neg_lower[OF 3 _ assms(2,3)] by auto
  qed
qed

text \<open>Below \<open>2^1002\<close> in magnitude nothing overflows inside \<open>roundTo\<close>.\<close>

lemma roundTo_finite:
  assumes "\<bar>x\<bar> \<le> pow2 1002"
  shows "isFinite (roundTo (Fin x))"
proof -
  have "pow2 (- 52) \<le> pow2 1002" by (intro pow2_mono) simp
  moreover have "pow2 1003 = pow2 1002 * pow2 1" by (simp add: pow2_add[symmetric])
  moreover have p1: "pow2 1 = 2" by (simp add: pow2_def)
  ultimately have "\<bar>x + pow2 (- 52)\<bar> \<le> pow2 1003"
    using assms pow2_pos[of "- 52"] by (simp add: abs_le_iff)
  then obtain c where c: "rnd (x + pow2 (- 52)) = Fin c" "\<bar>c\<bar> \<le> pow2 1003"
    using rnd_abs_le[of "x + pow2 (- 52)" 1003] by auto
  have "\<bar>c * 10 ^ 6\<bar> = \<bar>c\<bar> * 10 ^ 6" by (simp add: abs_mult)
  also have "\<dots> \<le> pow2 1003 * 10 ^ 6" using c(2) by (intro mult_right_mono) simp_all
  also have "\<dots> \<le> pow2 1003 * pow2 20"
    using pow2_pos[of 1003] by (intro mult_left_mono) (simp_all add: pow2_def)
  also have "\<dots> = pow2 1023" by (simp add: pow2_add[symmetric])
  finally obtain d where d: "rnd (c * 10 ^ 6) = Fin d" "\<bar>d\<bar> \<le> pow2 1023"
    using rnd_abs_le[of "c * 10 ^ 6" 1023] by auto
  define N :: int where "N = 2 ^ 1023"
  have pN: "pow2 1023 = of_int N" by (simp add: pow2_def N_def)
  have dN: "d \<le> of_int N" "of_int (- N) \<le> d" using d(2) by (simp_all add: pN abs_le_iff)
  have "\<lfloor>d + 1 / 2\<rfloor> \<le> N" using dN(1) by linarith
  moreover have "- N \<le> \<lfloor>d + 1 / 2\<rfloor>" using dN(2) by linarith
  ultimately have "\<bar>(of_int \<lfloor>d + 1 / 2\<rfloor> :: rat)\<bar> \<le> of_int N"
    by (simp only: of_int_abs[symmetric] of_int_le_iff)
  then have "\<bar>(of_int \<lfloor>d + 1 / 2\<rfloor> :: rat) / 10 ^ 6\<bar> \<le> pow2 1023"
    unfolding pN[symmetric] using pow2_pos[of 1023]
    by (simp add: abs_divide pos_divide_le_eq)
  then obtain r where "rnd (of_int \<lfloor>d + 1 / 2\<rfloor> / 10 ^ 6) = Fin r"
    using rnd_abs_le[of "of_int \<lfloor>d + 1 / 2\<rfloor> / 10 ^ 6" 1023] by auto
  then have r: "rnd (of_int \<lfloor>d + 1 / 2\<rfloor> / 1000000) = Fin r" by simp
  have d': "rnd (c * 1000000) = Fin d" using d(1) by simp
  show ?thesis
    by (simp add: roundTo_def Let_def Number_EPSILON_def c(1) d' r)
qed

lemma roundTo_positive_overflow:
  assumes "pow2 1006 \<le> b"
  shows "roundTo (Fin b) = PInf"
proof -
  have "pow2 1006 \<le> b + pow2 (- 52)" using assms pow2_pos[of "- 52"] by linarith
  then have "rnd (b + pow2 (- 52)) = PInf \<or> (\<exists>c. rnd (b + pow2 (- 52)) = Fin c \<and> pow2 1006 \<le> c)"
    by (intro rnd_pos_lower) simp_all
  moreover have "js_mul (Fin c) (Fin (10 ^ 6)) = PInf" if "pow2 1006 \<le> c" for c
  proof -
    have c0: "0 < c" using that pow2_pos[of 1006] by linarith
    have "pow2 1024 = pow2 1006 * pow2 18" by (simp add: pow2_add[symmetric])
    also have "\<dots> \<le> pow2 1006 * 10 ^ 6"
      using pow2_pos[of 1006] by (intro mult_left_mono) (simp_all add: pow2_def)
    also have "\<dots> \<le> c * 10 ^ 6" using that by (intro mult_right_mono) simp_all
    finally have "pow2 1024 \<le> \<bar>c * 10 ^ 6\<bar>" using c0 by (simp add: abs_mult)
    then have "rnd (c * 10 ^ 6) = PInf" using c0 by (simp add: rnd_overflow)
    then show ?thesis by simp
  qed
  ultimately have "js_mul (rnd (b + pow2 (- 52))) (Fin (10 ^ 6)) = PInf"
    by (auto simp: signedInf_def)
  then show ?thesis
    by (simp add: roundTo_def Let_def Number_EPSILON_def signedInf_def del: js_mul.simps)
qed

lemma plus1e303_bounds: "pow2 1006 \<le> 10 ^ 303" "(10 ^ 303 :: rat) \<le> pow2 1007"
  "(10 ^ 301 :: rat) \<le> pow2 1002"
  by (simp_all add: pow2_def)

lemma plus1e303_value: "\<exists>a. plus1e303 = Fin a \<and> pow2 1006 \<le> a"
proof -
  have p: "(0 :: rat) < 10 ^ 303" by simp
  obtain a where a: "rnd (10 ^ 303) = Fin a"
    using rnd_pos_upper[OF p plus1e303_bounds(2)] by auto
  then have "pow2 1006 \<le> a" using rnd_pos_lower[OF plus1e303_bounds(1)] by auto
  then show ?thesis using a by (simp add: plus1e303_def)
qed

text \<open>\<open>Number\<close> returns on \<open>undefined\<close>, on every primitive value and on every object
  and array that converts to a primitive.\<close>

lemma toNumber_converts:
  assumes "\<And>v. w = Some v \<Longrightarrow> \<not> toPrimitiveThrows v"
  shows "\<exists>n. toNumber e w = Inr n"
proof (cases w)
  case None
  then show ?thesis by simp
next
  case (Some v)
  then show ?thesis using assms[of v] by (cases v) auto
qed

text \<open>What \<open>normalizeTask\<close> makes of a value none of whose properties can be read.\<close>

lemma normalizeTask_defaults:
  assumes "\<And>k. getProp raw k = None"
  shows "normalizeTask e raw = Inr
     \<lparr> task_id = randomUUID e, name = ''Untitled task'', thumbnailUrl = None,
       hopper = Fin 0, streak = Fin 0, dayKey = localDateKey e, securedToday = False,
       createdAt = Fin (of_int (now e)), updatedAt = Fin (of_int (now e)),
       lastSecuredAt = None, lastSecuredReason = None \<rparr>"
  by (simp add: normalizeTask_def assms asSafeNumber_def roundTo_0)

subsection \<open>Catching up over many days\<close>

lemma rolloverLoop_dayKey:
  "dayKey (fst (rolloverLoop e n s)) = ((\<lambda>k. addDaysKey e k 1) ^^ n) (dayKey (fst s))"
proof -
  define f where "f = (\<lambda>k. addDaysKey e k 1)"
  have "dayKey (fst (rolloverLoop e n s)) = (f ^^ n) (dayKey (fst s))"
  proof (induction n arbitrary: s)
    case 0
    then show ?case by simp
  next
    case (Suc n)
    have "dayKey (fst (rolloverLoop e (Suc n) s)) = (f ^^ n) (f (dayKey (fst s)))"
      using Suc[of "rolloverStep e s"] by (simp add: rolloverStep_dayKey f_def)
    then show ?case by (simp add: funpow_swap1)
  qed
  then show ?thesis by (simp add: f_def)
qed

text \<open>Advancing a day key day by day, inside the years 1000 to 9999.\<close>

lemma addDays_iterated:
  assumes "DayFromYear 1000 \<le> d + 1" "d + int n < DayFromYear 10000"
    and "testDayKey k" "dayNumberUTC e k = d"
  shows "0 < n \<Longrightarrow> ((\<lambda>k. addDaysKey e k 1) ^^ n) k = dateKeyFromUTCDate ((d + int n) * msPerDay)"
  using assms(2)
proof (induction n)
  case 0
  then show ?case by simp
next
  case (Suc n)
  show ?case
  proof (cases "n = 0")
    case True
    then show ?thesis using addDaysKey_wellformed[OF assms(3), of e 1] assms(4) by simp
  next
    case False
    then have ih: "((\<lambda>k. addDaysKey e k 1) ^^ n) k = dateKeyFromUTCDate ((d + int n) * msPerDay)"
      using Suc by simp
    have r: "DayFromYear 1000 \<le> d + int n" "d + int n < DayFromYear 10000"
      using assms(1) False Suc.prems(2) by simp_all
    have "addDaysKey e (dateKeyFromUTCDate ((d + int n) * msPerDay)) 1
            = dateKeyFromUTCDate ((d + int n + 1) * msPerDay)"
      using addDaysKey_wellformed[OF dayNumber_of_key(2)[OF r], of e 1] dayNumber_of_key(1)[OF r, of e]
      by simp
    then show ?thesis by (simp add: ih add.assoc add.commute[of 1])
  qed
qed

lemma after_call_caught_up:
  assumes today: "todayKey = dateKeyFromUTCDate (dT * msPerDay)"
      "DayFromYear 1000 \<le> dT" "dT < DayFromYear 10000"
    and key: "testDayKey (dayKey t) \<Longrightarrow> DayFromYear 1000 \<le> dayNumberUTC e (dayKey t) + 1"
  shows "testDayKey (dayKey (fst (processTaskToToday e t todayKey)))
       \<and> \<not> js_str_gt (dayKey (fst (processTaskToToday e t todayKey))) todayKey
       \<and> dayDiff e (dayKey (fst (processTaskToToday e t todayKey))) todayKey \<le> 0"
proof -
  have tk: "testDayKey todayKey" "dayNumberUTC e todayKey = dT"
    unfolding today(1) using dayNumber_of_key[OF today(2,3)] by simp_all
  have same: "\<not> js_str_gt todayKey todayKey" by (simp add: js_str_gt_def)
  consider (repair) "\<not> testDayKey (dayKey t)"
    | (clamp) "testDayKey (dayKey t)" "js_str_gt (dayKey t) todayKey"
    | (idle) "testDayKey (dayKey t)" "\<not> js_str_gt (dayKey t) todayKey"
        "dayDiff e (dayKey t) todayKey \<le> 0"
    | (roll) "testDayKey (dayKey t)" "\<not> js_str_gt (dayKey t) todayKey"
        "0 < dayDiff e (dayKey t) todayKey"
    by linarith
  then show ?thesis
  proof cases
    case repair
    then have "processTaskToToday e t todayKey = (t\<lparr>dayKey := todayKey, securedToday := False\<rparr>, True)"
      by (simp add: processTaskToToday_def Let_def repairDayKey_def clampDayKey_def js_str_gt_def)
    then show ?thesis using tk same by simp
  next
    case clamp
    then have "processTaskToToday e t todayKey = (t\<lparr>dayKey := todayKey, securedToday := False\<rparr>, True)"
      by (simp add: processTaskToToday_def Let_def repairDayKey_def clampDayKey_def)
    then show ?thesis using tk same by simp
  next
    case idle
    then show ?thesis using caught_up_noop[OF idle] by simp
  next
    case roll
    define d where "d = dayNumberUTC e (dayKey t)"
    define n where "n = nat (dayDiff e (dayKey t) todayKey)"
    have n: "0 < n" "d + int n = dT" using roll(3) tk(2) by (simp_all add: n_def d_def dayDiff_def)
    have "dayKey (fst (processTaskToToday e t todayKey))
            = ((\<lambda>k. addDaysKey e k 1) ^^ n) (dayKey t)"
      unfolding catchup_by_steps[OF roll] by (simp add: rolloverLoop_dayKey n_def)
    also have "\<dots> = dateKeyFromUTCDate ((d + int n) * msPerDay)"
      using key[OF roll(1)] today(3) n
      by (intro addDays_iterated[where d=d]) (simp_all add: d_def roll(1))
    finally have "dayKey (fst (processTaskToToday e t todayKey)) = todayKey"
      by (simp add: n(2) today(1))
    then show ?thesis using tk same by simp
  qed
qed

lemma ahead_is_clamped:
  assumes "js_str_gt (dayKey t) todayKey"
  shows "processTaskToToday e t todayKey = (t\<lparr>dayKey := todayKey, securedToday := False\<rparr>, True)"
  using assms
  by (simp add: processTaskToToday_def Let_def repairDayKey_def clampDayKey_def js_str_gt_def)

text \<open>
  Once a call has returned, a second call with the same day key of today changes
  nothing, for a today from the year 1000 to the year 9999 and a task whose day key is
  malformed or denotes 31 December 999 or a later day.
\<close>

lemma idempotent_once_caught_up:
  assumes "todayKey = dateKeyFromUTCDate (dT * msPerDay)"
      "DayFromYear 1000 \<le> dT" "dT < DayFromYear 10000"
    and "testDayKey (dayKey t) \<Longrightarrow> DayFromYear 1000 \<le> dayNumberUTC e (dayKey t) + 1"
  shows "processTaskToToday e (fst (processTaskToToday e t todayKey)) todayKey
           = (fst (processTaskToToday e t todayKey), False)"
  using after_call_caught_up[OF assms] by (intro caught_up_noop) simp_all

subsection \<open>A day key of the year 999\<close>

lemma year999_keys:
  "testDayKey ''0999-12-29''" "\<not> js_str_gt ''0999-12-29'' ''2024-03-05''"
  "\<not> testDayKey ''999-12-30''" "js_str_gt ''3048-05-09'' ''2024-03-05''"
  by code_simp+

lemma year999_diff: "dayDiff e ''0999-12-29'' ''2024-03-05'' = 374075"
  by code_simp

lemma year999_first_round: "addDaysKey e ''0999-12-29'' 1 = ''999-12-30''"
  by code_simp

lemma example_today_number: "dayNumberUTC e ''2024-03-05'' = 19787"
  by code_simp

lemma year3048_key: "dateKeyFromUTCDate (393860 * msPerDay) = ''3048-05-09''"
  by code_simp

lemma year_limits: "DayFromYear 1000 = - 354285" "DayFromYear 10000 = 2932897"
  by (simp_all add: DayFromYear_def)

lemma year999_final_key:
  "((\<lambda>k. addDaysKey exampleEnv k 1) ^^ 374075) ''0999-12-29'' = ''3048-05-09''"
proof -
  define f where "f = (\<lambda>k. addDaysKey exampleEnv k 1)"
  have 1: "f ''0999-12-29'' = ''999-12-30''" by (simp add: f_def year999_first_round)
  have 2: "f ''999-12-30'' = ''2024-03-05''"
    using addDaysKey_malformed[OF year999_keys(3), of exampleEnv 1] by (simp add: f_def exampleEnv_def)
  have "(f ^^ 2) ''0999-12-29'' = ''2024-03-05''" by (simp add: numeral_2_eq_2 1 2)
  moreover have "(f ^^ 374073) ''2024-03-05'' = dateKeyFromUTCDate ((19787 + int 374073) * msPerDay)"
    unfolding f_def
    by (rule addDays_iterated[where d=19787])
       (simp_all add: year_limits example_today example_today_number)
  moreover have "(f ^^ 374075) ''0999-12-29'' = (f ^^ 374073) ((f ^^ 2) ''0999-12-29'')"
    using funpow_add[of 374073 2 f] by simp
  ultimately show ?thesis by (simp add: f_def[symmetric] year3048_key)
qed

section \<open>The claims\<close>

text \<open>
  C1 (amended).  A task whose day key is three days behind today, with
  \<open>hopper = 3.5\<close> and the day not secured, goes through three rounds of the loop:
  the first leaves hopper 2.5 and secures, the second leaves 1.5 and secures, the
  third leaves 0.5 and does not secure.  The streak is 1 after the first round and 2
  after the second and the third, whatever it was before: the first round closes an
  unsecured day and resets it to 0 before the new day is secured.  The final streak is
  the starting streak plus 2 only when the starting streak is 0.
\<close>

theorem three_day_catchup:
  assumes "testDayKey (dayKey t)" "\<not> js_str_gt (dayKey t) todayKey"
    and "dayDiff e (dayKey t) todayKey = 3"
    and "hopper t = Fin (7 / 2)" "\<not> securedToday t"
  shows "processTaskToToday e t todayKey
           = (fst (rolloverStep e (rolloverStep e (rolloverStep e (t, False)))), True)
    \<and> hopper (fst (rolloverStep e (t, False))) = Fin (5 / 2)
    \<and> securedToday (fst (rolloverStep e (t, False)))
    \<and> streak (fst (rolloverStep e (t, False))) = Fin 1
    \<and> hopper (fst (rolloverStep e (rolloverStep e (t, False)))) = Fin (3 / 2)
    \<and> securedToday (fst (rolloverStep e (rolloverStep e (t, False))))
    \<and> streak (fst (rolloverStep e (rolloverStep e (t, False)))) = Fin 2
    \<and> hopper (fst (processTaskToToday e t todayKey)) = Fin (1 / 2)
    \<and> \<not> securedToday (fst (processTaskToToday e t todayKey))
    \<and> streak (fst (processTaskToToday e t todayKey)) = Fin 2
    \<and> (streak t = Fin 0 \<longrightarrow>
         streak (fst (processTaskToToday e t todayKey)) = js_add (streak t) (Fin 2))"
proof -
  have p: "processTaskToToday e t todayKey
             = rolloverStep e (rolloverStep e (rolloverStep e (t, False)))"
    using catchup_by_steps[OF assms(1,2)] assms(3) by (simp add: rolloverLoop_3)
  note r = three_rounds[OF assms(4,5), of e False]
  have "processTaskToToday e t todayKey
           = (fst (rolloverStep e (rolloverStep e (rolloverStep e (t, False)))), True)"
    using r(4) by (simp add: p prod_eq_iff)
  then show ?thesis using r(1,2,3) by (simp add: p)
qed

theorem three_day_catchup_witness:
  "testDayKey (dayKey exampleTask) \<and> \<not> js_str_gt (dayKey exampleTask) ''2024-03-05''
   \<and> dayDiff exampleEnv (dayKey exampleTask) ''2024-03-05'' = 3
   \<and> hopper exampleTask = Fin (7 / 2) \<and> \<not> securedToday exampleTask
   \<and> hopper (fst (processTaskToToday exampleEnv exampleTask ''2024-03-05'')) = Fin (1 / 2)
   \<and> \<not> securedToday (fst (processTaskToToday exampleEnv exampleTask ''2024-03-05''))
   \<and> streak (fst (processTaskToToday exampleEnv exampleTask ''2024-03-05'')) = Fin 2"
proof -
  have h: "testDayKey (dayKey exampleTask)" "\<not> js_str_gt (dayKey exampleTask) ''2024-03-05''"
    "dayDiff exampleEnv (dayKey exampleTask) ''2024-03-05'' = 3"
    "hopper exampleTask = Fin (7 / 2)" "\<not> securedToday exampleTask"
    by (simp_all add: exampleTask_def example_wellformed example_not_ahead example_diff)
  show ?thesis using three_day_catchup[OF h] h by blast
qed

text \<open>
  The claim as stated fails for a starting streak of 5: the final streak is 2, not 7.
\<close>

theorem three_day_catchup_counterexample:
  "dayDiff exampleEnv (dayKey exampleTask) ''2024-03-05'' = 3
   \<and> hopper exampleTask = Fin (7 / 2) \<and> \<not> securedToday exampleTask
   \<and> streak exampleTask = Fin 5
   \<and> js_add (streak exampleTask) (Fin 2) = Fin 7
   \<and> streak (fst (processTaskToToday exampleEnv exampleTask ''2024-03-05'')) = Fin 2"
proof -
  have h: "testDayKey (dayKey exampleTask)" "\<not> js_str_gt (dayKey exampleTask) ''2024-03-05''"
    "dayDiff exampleEnv (dayKey exampleTask) ''2024-03-05'' = 3"
    "hopper exampleTask = Fin (7 / 2)" "\<not> securedToday exampleTask"
    by (simp_all add: exampleTask_def example_wellformed example_not_ahead example_diff)
  have p: "processTaskToToday exampleEnv exampleTask ''2024-03-05''
             = rolloverStep exampleEnv (rolloverStep exampleEnv (rolloverStep exampleEnv (exampleTask, False)))"
    using catchup_by_steps[OF h(1,2)] h(3) by (simp add: rolloverLoop_3)
  have "streak (fst (processTaskToToday exampleEnv exampleTask ''2024-03-05'')) = Fin 2"
    using three_rounds(3)[OF h(4,5), of exampleEnv False] by (simp add: p)
  moreover have "streak exampleTask = Fin 5" "js_add (streak exampleTask) (Fin 2) = Fin 7"
    by (simp_all add: exampleTask_def)
  ultimately show ?thesis using h by simp
qed

text \<open>
  C2.  Each round of the loop takes exactly 1 from the hopper and clamps the result
  at 0: the hopper after a round is \<open>Math.max(0, hopper - 1)\<close>, and after \<open>n\<close>
  rounds that function applied \<open>n\<close> times.  It is not the decay by a tenth that the
  comments describe: from 3.5 the round gives 2.5, the commented-out line 3.15.
\<close>

theorem decay_is_flat_penalty:
  "hopper (fst (rolloverStep e s)) = Math_max (Fin 0) (js_sub (hopper (fst s)) (Fin 1))
   \<and> hopper (fst (rolloverLoop e n s))
       = ((\<lambda>h. Math_max (Fin 0) (js_sub h (Fin 1))) ^^ n) (hopper (fst s))
   \<and> hopper (fst (rolloverStep e (exampleTask, False))) = Fin (5 / 2)
   \<and> commentedDecay (hopper exampleTask) = Fin (7093169413108531 / 2251799813685248)"
proof -
  have "hopper exampleTask = Fin (7 / 2)" by (simp add: exampleTask_def)
  then show ?thesis
    unfolding decayHopper_def[symmetric]
    using rolloverStep_hopper[of e s] rolloverLoop_hopper[of e n s]
      rolloverStep_hopper[of e "(exampleTask, False)"] thr_5_2(2) commentedDecay_35
    by simp
qed

theorem decay_is_flat_penalty_witness:
  "hopper (fst (rolloverLoop exampleEnv 3 (exampleTask, False))) = Fin (1 / 2)"
  using decay_is_flat_penalty[of exampleEnv "(exampleTask, False)" 3]
  by (simp add: exampleTask_def numeral_3_eq_3 Math_max_def)

text \<open>
  C3 (amended).  A task with a streak above 0 whose day was not secured, advanced by
  exactly one day, ends with streak 0 when the decayed hopper
  \<open>Math.max(0, hopper - 1)\<close> is below the threshold \<open>1 - 1e-9\<close>, and with streak 1
  otherwise: the streak is reset to 0 and the new day is then secured at once.
\<close>

theorem streak_after_one_day:
  assumes "testDayKey (dayKey t)" "\<not> js_str_gt (dayKey t) todayKey"
    and "dayDiff e (dayKey t) todayKey = 1"
    and "\<not> securedToday t" "js_gt (streak t) (Fin 0)"
  shows "streak (fst (processTaskToToday e t todayKey))
           = (if js_ge (Math_max (Fin 0) (js_sub (hopper t) (Fin 1))) (js_sub DAILY_THRESHOLD EPS)
              then Fin 1 else Fin 0)"
  using one_day_streak[OF assms] by (simp add: decayHopper_def)

theorem streak_after_one_day_witness:
  "testDayKey ''2024-03-04'' \<and> \<not> js_str_gt ''2024-03-04'' ''2024-03-05''
   \<and> dayDiff exampleEnv ''2024-03-04'' ''2024-03-05'' = 1
   \<and> streak (fst (processTaskToToday exampleEnv
        (exampleTask\<lparr>dayKey := ''2024-03-04'', hopper := Fin (3 / 2)\<rparr>) ''2024-03-05'')) = Fin 0"
proof -
  let ?t = "exampleTask\<lparr>dayKey := ''2024-03-04'', hopper := Fin (3 / 2)\<rparr>"
  have h: "testDayKey (dayKey ?t)" "\<not> js_str_gt (dayKey ?t) ''2024-03-05''"
    "dayDiff exampleEnv (dayKey ?t) ''2024-03-05'' = 1"
    "\<not> securedToday ?t" "js_gt (streak ?t) (Fin 0)"
    by (simp_all add: exampleTask_def example_wellformed example_not_ahead example_diff js_gt_def)
  show ?thesis
    using streak_after_one_day[OF h] h(1,2,3) by (simp add: threshold_eval Math_max_def)
qed

text \<open>
  The claim as stated fails for a hopper of 3.5: the streak after one day is 1, not 0.
\<close>

theorem streak_after_one_day_counterexample:
  "\<not> securedToday exampleTask \<and> js_gt (streak exampleTask) (Fin 0)
   \<and> dayDiff exampleEnv ''2024-03-04'' ''2024-03-05'' = 1
   \<and> streak (fst (processTaskToToday exampleEnv
        (exampleTask\<lparr>dayKey := ''2024-03-04''\<rparr>) ''2024-03-05'')) = Fin 1"
proof -
  let ?t = "exampleTask\<lparr>dayKey := ''2024-03-04''\<rparr>"
  have h: "testDayKey (dayKey ?t)" "\<not> js_str_gt (dayKey ?t) ''2024-03-05''"
    "dayDiff exampleEnv (dayKey ?t) ''2024-03-05'' = 1"
    "\<not> securedToday ?t" "js_gt (streak ?t) (Fin 0)"
    by (simp_all add: exampleTask_def example_wellformed example_not_ahead example_diff js_gt_def)
  have "hopper ?t = Fin (7 / 2)" by (simp add: exampleTask_def)
  then show ?thesis
    using one_day_streak[OF h] h(3,4,5) thr_5_2(1) by simp
qed

text \<open>
  C4.  The code at a task whose day key is \<open>0999-12-29\<close>, with today
  \<open>2024-03-05\<close>: the first round of the loop writes the day key \<open>999-12-30\<close>
  (\<open>dateKeyFromUTCDate\<close> does not pad the year), which the expression of
  \<open>addDaysKey\<close> does not match, so the second round writes \<open>localDateKey()\<close> and the
  rounds left carry the day key on to \<open>3048-05-09\<close>.  A second call with the same
  today finds the day key ahead of today, moves it back and reports a change.
  (For day keys from 31 December 999 on the second call changes nothing: lemma
  \<open>idempotent_once_caught_up\<close>; and a call on a well-formed day key that is not ahead of
  today and not behind it changes nothing: lemma \<open>caught_up_noop\<close>.)
\<close>

theorem second_call_changes_task:
  "dayKey (fst (processTaskToToday exampleEnv (exampleTask\<lparr>dayKey := ''0999-12-29''\<rparr>)
       ''2024-03-05'')) = ''3048-05-09''
   \<and> snd (processTaskToToday exampleEnv
        (fst (processTaskToToday exampleEnv (exampleTask\<lparr>dayKey := ''0999-12-29''\<rparr>) ''2024-03-05''))
        ''2024-03-05'')
   \<and> dayKey (fst (processTaskToToday exampleEnv
        (fst (processTaskToToday exampleEnv (exampleTask\<lparr>dayKey := ''0999-12-29''\<rparr>) ''2024-03-05''))
        ''2024-03-05'')) = ''2024-03-05''"
proof -
  let ?t = "exampleTask\<lparr>dayKey := ''0999-12-29''\<rparr>"
  have h: "testDayKey (dayKey ?t)" "\<not> js_str_gt (dayKey ?t) ''2024-03-05''"
    "0 < dayDiff exampleEnv (dayKey ?t) ''2024-03-05''"
    by (simp_all add: year999_keys year999_diff)
  have k: "dayKey (fst (processTaskToToday exampleEnv ?t ''2024-03-05'')) = ''3048-05-09''"
    unfolding catchup_by_steps[OF h] rolloverLoop_dayKey
    by (simp add: year999_diff year999_final_key)
  have "js_str_gt (dayKey (fst (processTaskToToday exampleEnv ?t ''2024-03-05''))) ''2024-03-05''"
    by (simp add: k year999_keys)
  then show ?thesis using k by (simp add: ahead_is_clamped)
qed

text \<open>
  C5.  \<open>trySecureToday\<close> secures exactly when \<open>securedToday\<close> is false and
  \<open>hopper >= 1.0 - 1e-9\<close>.  When it secures, it sets \<open>securedToday\<close>, adds 1 to the
  streak (an integer below \<open>2^53\<close> in magnitude, where the addition of binary64 is
  exact), stamps \<open>lastSecuredAt\<close> and the reason, and returns true; otherwise it
  changes nothing and returns false, in particular on a task already secured.  A
  hopper of 0.999999999 secures, one of 0.99 does not.
\<close>

theorem trySecure_rule:
  "snd (trySecureToday e t reason)
      = (\<not> securedToday t \<and> js_ge (hopper t) (js_sub DAILY_THRESHOLD EPS))
   \<and> (snd (trySecureToday e t reason) \<longrightarrow> streak t = Fin (of_int s) \<longrightarrow> \<bar>s\<bar> < 2 ^ 53 \<longrightarrow>
        fst (trySecureToday e t reason)
          = t\<lparr> securedToday := True, streak := Fin (of_int (s + 1)),
               lastSecuredAt := Some (Fin (of_int (now e))), lastSecuredReason := Some reason \<rparr>)
   \<and> (\<not> snd (trySecureToday e t reason) \<longrightarrow> fst (trySecureToday e t reason) = t)
   \<and> (securedToday t \<longrightarrow> trySecureToday e t reason = (t, False))
   \<and> (\<not> securedToday t \<longrightarrow> hopper t = rnd (999999999 / 10 ^ 9) \<longrightarrow>
        snd (trySecureToday e t reason))
   \<and> (hopper t = rnd (99 / 100) \<longrightarrow> \<not> snd (trySecureToday e t reason))"
proof -
  have 1: "snd (trySecureToday e t reason)
      = (\<not> securedToday t \<and> js_ge (hopper t) (js_sub DAILY_THRESHOLD EPS))"
    by (rule trySecureToday_snd)
  have 2: "fst (trySecureToday e t reason)
          = t\<lparr> securedToday := True, streak := Fin (of_int (s + 1)),
               lastSecuredAt := Some (Fin (of_int (now e))), lastSecuredReason := Some reason \<rparr>"
    if "snd (trySecureToday e t reason)" "streak t = Fin (of_int s)" "\<bar>s\<bar> < 2 ^ 53"
    using that(1) increment_safe_integer[OF that(3)]
    by (simp add: trySecureToday_def that(2) del: js_add.simps split: if_splits)
  have 3: "fst (trySecureToday e t reason) = t" if "\<not> snd (trySecureToday e t reason)"
    using that by (simp add: trySecureToday_def split: if_splits)
  have 4: "trySecureToday e t reason = (t, False)" if "securedToday t"
    using that by (simp add: trySecureToday_def)
  have 5: "snd (trySecureToday e t reason)"
    if "\<not> securedToday t" "hopper t = rnd (999999999 / 10 ^ 9)"
    using that secures_0999999999 by (simp only: 1 simp_thms)
  have 6: "\<not> snd (trySecureToday e t reason)" if "hopper t = rnd (99 / 100)"
    using that not_secures_099 by (simp only: 1 simp_thms)
  show ?thesis using 1 2 3 4 5 6 by blast
qed

theorem trySecure_rule_witness:
  "snd (trySecureToday exampleEnv (exampleTask\<lparr>hopper := rnd (999999999 / 10 ^ 9)\<rparr>) ''add'')
   \<and> fst (trySecureToday exampleEnv (exampleTask\<lparr>hopper := rnd (999999999 / 10 ^ 9)\<rparr>) ''add'')
       = exampleTask\<lparr> hopper := rnd (999999999 / 10 ^ 9), securedToday := True, streak := Fin 6,
           lastSecuredAt := Some (Fin 1709600000000), lastSecuredReason := Some ''add'' \<rparr>"
proof -
  let ?t = "exampleTask\<lparr>hopper := rnd (999999999 / 10 ^ 9)\<rparr>"
  have c: "\<not> securedToday ?t" "hopper ?t = rnd (999999999 / 10 ^ 9)"
    "streak ?t = Fin (of_int 5)" "\<bar>5 :: int\<bar> < 2 ^ 53"
    by (simp_all add: exampleTask_def)
  note T = trySecure_rule[of exampleEnv ?t "''add''" 5]
  have s: "snd (trySecureToday exampleEnv ?t ''add'')" using T c by blast
  have "fst (trySecureToday exampleEnv ?t ''add'')
          = ?t\<lparr> securedToday := True, streak := Fin (of_int (5 + 1)),
               lastSecuredAt := Some (Fin (of_int (now exampleEnv))),
               lastSecuredReason := Some ''add'' \<rparr>"
    using T s c by blast
  then show ?thesis using s by (simp add: exampleEnv_def)
qed

text \<open>
  C6.  From a finite hopper that is not negative, the hopper is not negative after
  any number of rounds of the loop, nor after \<open>processTaskToToday\<close>.
\<close>

theorem hopper_never_negative:
  assumes "isFinite (hopper t)" "js_ge (hopper t) (Fin 0)"
  shows "js_ge (hopper (fst (rolloverLoop e n (t, c)))) (Fin 0)
       \<and> js_ge (hopper (fst (processTaskToToday e t todayKey))) (Fin 0)"
  using assms(2) by (simp add: processTaskToToday_def Let_def rolloverLoop_nonneg)

theorem hopper_never_negative_witness:
  "isFinite (hopper exampleTask) \<and> js_ge (hopper exampleTask) (Fin 0)
   \<and> js_ge (hopper (fst (rolloverLoop exampleEnv 5 (exampleTask, False)))) (Fin 0)
   \<and> js_ge (hopper (fst (processTaskToToday exampleEnv exampleTask ''2024-03-05''))) (Fin 0)"
proof -
  have h: "isFinite (hopper exampleTask)" "js_ge (hopper exampleTask) (Fin 0)"
    by (simp_all add: exampleTask_def)
  show ?thesis
    using hopper_never_negative[OF h, of exampleEnv 5 False "''2024-03-05''"] h by simp
qed

text \<open>
  C7 (amended).  Whenever \<open>Number(t.hopper)\<close> returns, \<open>normalizeTask\<close> returns
  a task; it does so for \<open>null\<close>, for \<open>{}\<close> and for a record whose fields all have
  a wrong primitive type, and for a value without readable properties the task is the
  default one.  The task has a non-empty identifier, a non-empty trimmed name, a
  thumbnail that is \<open>null\<close> or lies under \<open>/uploads/\<close>, a hopper that is never NaN,
  is 0 when the stored hopper is not a finite number, and is finite when the stored
  hopper is at most \<open>1e301\<close> in magnitude, an integer streak, a day key of the
  calendar format and finite time stamps, given that \<open>crypto.randomUUID()\<close> is not
  empty and \<open>localDateKey()\<close> has the calendar format.  Nothing makes the hopper or
  the streak non-negative.
\<close>

theorem normalizeTask_output:
  assumes "randomUUID e \<noteq> []" "testDayKey (localDateKey e)"
    and "toNumber e (getProp raw ''hopper'') = Inr n"
  shows "\<exists>t. normalizeTask e raw = Inr t
   \<and> task_id t \<noteq> []
   \<and> name t \<noteq> []
   \<and> trim (name t) = name t
   \<and> (\<forall>u. thumbnailUrl t = Some u \<longrightarrow> startsWith u ''/uploads/'')
   \<and> hopper t \<noteq> NaN
   \<and> (\<not> isFinite n \<longrightarrow> hopper t = Fin 0)
   \<and> (\<forall>x. n = Fin x \<and> \<bar>x\<bar> \<le> 10 ^ 301 \<longrightarrow> isFinite (hopper t))
   \<and> isInteger (streak t)
   \<and> testDayKey (dayKey t)
   \<and> isFinite (createdAt t)
   \<and> isFinite (updatedAt t)
   \<and> (\<forall>x. lastSecuredAt t = Some x \<longrightarrow> isFinite x)
   \<and> ((\<forall>k. getProp raw k = None) \<longrightarrow> t =
         \<lparr> task_id = randomUUID e, name = ''Untitled task'', thumbnailUrl = None,
           hopper = Fin 0, streak = Fin 0, dayKey = localDateKey e, securedToday = False,
           createdAt = Fin (of_int (now e)), updatedAt = Fin (of_int (now e)),
           lastSecuredAt = None, lastSecuredReason = None \<rparr>)"
proof -
  define h where "h = (if isFinite n then n else Fin 0)"
  define t where "t = \<lparr> task_id = nonEmptyStringOr (getProp raw ''id'') (randomUUID e),
       name = trimmedStringOr (getProp raw ''name'') ''Untitled task'',
       thumbnailUrl = uploadUrlOrNull (getProp raw ''thumbnailUrl''),
       hopper = roundTo h,
       streak = integerOrZero (getProp raw ''streak''),
       dayKey = dayKeyOr (getProp raw ''dayKey'') (localDateKey e),
       securedToday = booleanOrFalse (getProp raw ''securedToday''),
       createdAt = finiteOr (getProp raw ''createdAt'') (Fin (of_int (now e))),
       updatedAt = finiteOr (getProp raw ''updatedAt'') (Fin (of_int (now e))),
       lastSecuredAt = finiteOrNull (getProp raw ''lastSecuredAt''),
       lastSecuredReason = stringOrNull (getProp raw ''lastSecuredReason'') \<rparr>"
  have nt: "normalizeTask e raw = Inr t"
    by (simp add: normalizeTask_def asSafeNumber_def assms(3) t_def h_def)
  have hop: "hopper t = roundTo h" by (simp add: t_def)
  have 1: "task_id t \<noteq> []" using assms(1) by (simp add: t_def nonEmptyStringOr_ok)
  have 2: "name t \<noteq> [] \<and> trim (name t) = name t"
    using trimmedStringOr_ok[of "getProp raw ''name''"] by (simp add: t_def)
  have 3: "\<forall>u. thumbnailUrl t = Some u \<longrightarrow> startsWith u ''/uploads/''"
    using uploadUrlOrNull_ok[of "getProp raw ''thumbnailUrl''"] by (simp add: t_def)
  have 4: "hopper t \<noteq> NaN" by (simp add: hop roundTo_not_NaN)
  have 5: "\<not> isFinite n \<longrightarrow> hopper t = Fin 0" by (simp add: hop h_def roundTo_0)
  have 6: "\<forall>x. n = Fin x \<and> \<bar>x\<bar> \<le> 10 ^ 301 \<longrightarrow> isFinite (hopper t)"
  proof (intro allI impI)
    fix x assume x: "n = Fin x \<and> \<bar>x\<bar> \<le> 10 ^ 301"
    then have "\<bar>x\<bar> \<le> pow2 1002" using plus1e303_bounds(3) by linarith
    then have "isFinite (roundTo (Fin x))" by (rule roundTo_finite)
    then show "isFinite (hopper t)" using x by (simp add: hop h_def)
  qed
  have 7: "isInteger (streak t)" by (simp add: t_def integerOrZero_ok)
  have 8: "testDayKey (dayKey t)" using assms(2) by (simp add: t_def dayKeyOr_ok)
  have 9: "isFinite (createdAt t) \<and> isFinite (updatedAt t)" by (simp add: t_def finiteOr_ok)
  have 10: "\<forall>x. lastSecuredAt t = Some x \<longrightarrow> isFinite x"
    using finiteOrNull_ok[of "getProp raw ''lastSecuredAt''"] by (simp add: t_def)
  have 11: "(\<forall>k. getProp raw k = None) \<longrightarrow> t =
         \<lparr> task_id = randomUUID e, name = ''Untitled task'', thumbnailUrl = None,
           hopper = Fin 0, streak = Fin 0, dayKey = localDateKey e, securedToday = False,
           createdAt = Fin (of_int (now e)), updatedAt = Fin (of_int (now e)),
           lastSecuredAt = None, lastSecuredReason = None \<rparr>"
    using normalizeTask_defaults[of raw e] nt by simp
  show ?thesis
    using nt 1 2 3 4 5 6 7 8 9 10 11 by blast
qed

theorem normalizeTask_output_witness:
  "randomUUID exampleEnv \<noteq> [] \<and> testDayKey (localDateKey exampleEnv)
   \<and> toNumber exampleEnv (getProp JNull ''hopper'') = Inr NaN
   \<and> normalizeTask exampleEnv JNull = Inr
       \<lparr> task_id = ''3f0c1e9a-5b7d-4c2e-8a11-6d2f9b0e7c45'', name = ''Untitled task'',
         thumbnailUrl = None, hopper = Fin 0, streak = Fin 0, dayKey = ''2024-03-05'',
         securedToday = False, createdAt = Fin 1709600000000, updatedAt = Fin 1709600000000,
         lastSecuredAt = None, lastSecuredReason = None \<rparr>
   \<and> normalizeTask exampleEnv (JObj []) = normalizeTask exampleEnv JNull
   \<and> normalizeTask exampleEnv (JObj [(''id'', JNum (Fin 1)), (''name'', JBool True),
        (''thumbnailUrl'', JNum (Fin 0)), (''hopper'', JStr ''full''), (''streak'', JBool True),
        (''dayKey'', JNum (Fin 7)), (''securedToday'', JStr ''yes''), (''createdAt'', JNull),
        (''updatedAt'', JStr ''now''), (''lastSecuredAt'', JBool False),
        (''lastSecuredReason'', JNum (Fin 2))]) = normalizeTask exampleEnv JNull
   \<and> toNumber exampleEnv (getProp (JObj [(''hopper'', JNum (Fin (5 / 2)))]) ''hopper'') = Inr (Fin (5 / 2))
   \<and> (\<exists>t. normalizeTask exampleEnv (JObj [(''hopper'', JNum (Fin (5 / 2)))]) = Inr t
          \<and> isFinite (hopper t))"
proof -
  have h: "randomUUID exampleEnv \<noteq> []" "testDayKey (localDateKey exampleEnv)"
    by (simp_all add: exampleEnv_def example_today)
  have a: "toNumber exampleEnv (getProp JNull ''hopper'') = Inr NaN" by simp
  have b: "toNumber exampleEnv (getProp (JObj [(''hopper'', JNum (Fin (5 / 2)))]) ''hopper'')
             = Inr (Fin (5 / 2))" by simp
  have n: "\<forall>k. getProp JNull k = None" by simp
  have c: "\<bar>5 / 2 :: rat\<bar> \<le> 10 ^ 301" by simp
  obtain t where t: "normalizeTask exampleEnv JNull = Inr t"
      "t = \<lparr> task_id = randomUUID exampleEnv, name = ''Untitled task'', thumbnailUrl = None,
           hopper = Fin 0, streak = Fin 0, dayKey = localDateKey exampleEnv, securedToday = False,
           createdAt = Fin (of_int (now exampleEnv)), updatedAt = Fin (of_int (now exampleEnv)),
           lastSecuredAt = None, lastSecuredReason = None \<rparr>"
    using normalizeTask_output[OF h a] n by blast
  obtain u where u: "normalizeTask exampleEnv (JObj [(''hopper'', JNum (Fin (5 / 2)))]) = Inr u"
      "isFinite (hopper u)"
    using normalizeTask_output[OF h b] c by blast
  have d: "normalizeTask exampleEnv (JObj []) = Inr t"
    by (simp add: normalizeTask_def asSafeNumber_def roundTo_0 t(2))
  have w: "normalizeTask exampleEnv (JObj [(''id'', JNum (Fin 1)), (''name'', JBool True),
        (''thumbnailUrl'', JNum (Fin 0)), (''hopper'', JStr ''full''), (''streak'', JBool True),
        (''dayKey'', JNum (Fin 7)), (''securedToday'', JStr ''yes''), (''createdAt'', JNull),
        (''updatedAt'', JStr ''now''), (''lastSecuredAt'', JBool False),
        (''lastSecuredReason'', JNum (Fin 2))]) = Inr t"
    by (simp add: normalizeTask_def asSafeNumber_def roundTo_0 t(2) exampleEnv_def)
  have t': "t = \<lparr> task_id = ''3f0c1e9a-5b7d-4c2e-8a11-6d2f9b0e7c45'', name = ''Untitled task'',
         thumbnailUrl = None, hopper = Fin 0, streak = Fin 0, dayKey = ''2024-03-05'',
         securedToday = False, createdAt = Fin 1709600000000, updatedAt = Fin 1709600000000,
         lastSecuredAt = None, lastSecuredReason = None \<rparr>"
    by (simp add: t(2) exampleEnv_def)
  show ?thesis
    using h a b u by (simp add: d w t(1) t')
qed

text \<open>
  The claim as stated fails.  A hopper of -5 and a streak of -3 pass through
  unchanged.  The two other parts of the claim fail as well: a hopper that is an
  object with a property \<open>toString\<close> makes \<open>Number\<close> throw, and a hopper of
  \<open>1e303\<close> leaves \<open>roundTo\<close> as \<open>Infinity\<close>.
\<close>

theorem normalizeTask_output_counterexample:
  "normalizeTask exampleEnv (JObj [(''hopper'', JNum (Fin (- 5))), (''streak'', JNum (Fin (- 3)))])
     = Inr \<lparr> task_id = ''3f0c1e9a-5b7d-4c2e-8a11-6d2f9b0e7c45'', name = ''Untitled task'',
         thumbnailUrl = None, hopper = Fin (- 5), streak = Fin (- 3), dayKey = ''2024-03-05'',
         securedToday = False, createdAt = Fin 1709600000000, updatedAt = Fin 1709600000000,
         lastSecuredAt = None, lastSecuredReason = None \<rparr>
   \<and> \<not> js_ge (Fin (- 5)) (Fin 0) \<and> \<not> js_ge (Fin (- 3)) (Fin 0)
   \<and> normalizeTask exampleEnv (JObj [(''hopper'', notConvertible)]) = Inl TypeError
   \<and> normalizeTask exampleEnv (JObj [(''hopper'', JNum plus1e303)])
     = Inr \<lparr> task_id = ''3f0c1e9a-5b7d-4c2e-8a11-6d2f9b0e7c45'', name = ''Untitled task'',
         thumbnailUrl = None, hopper = PInf, streak = Fin 0, dayKey = ''2024-03-05'',
         securedToday = False, createdAt = Fin 1709600000000, updatedAt = Fin 1709600000000,
         lastSecuredAt = None, lastSecuredReason = None \<rparr>
   \<and> \<not> isFinite PInf"
proof -
  obtain a where a: "plus1e303 = Fin a" "pow2 1006 \<le> a" using plus1e303_value by blast
  have r: "roundTo (Fin a) = PInf" using a(2) by (rule roundTo_positive_overflow)
  have 1: "normalizeTask exampleEnv (JObj [(''hopper'', JNum (Fin (- 5))), (''streak'', JNum (Fin (- 3)))])
     = Inr \<lparr> task_id = ''3f0c1e9a-5b7d-4c2e-8a11-6d2f9b0e7c45'', name = ''Untitled task'',
         thumbnailUrl = None, hopper = Fin (- 5), streak = Fin (- 3), dayKey = ''2024-03-05'',
         securedToday = False, createdAt = Fin 1709600000000, updatedAt = Fin 1709600000000,
         lastSecuredAt = None, lastSecuredReason = None \<rparr>"
    by (simp add: normalizeTask_def asSafeNumber_def roundTo_minus_5 exampleEnv_def)
  have 2: "\<not> js_ge (Fin (- 5)) (Fin 0) \<and> \<not> js_ge (Fin (- 3)) (Fin 0)" by simp
  have 3: "normalizeTask exampleEnv (JObj [(''hopper'', notConvertible)]) = Inl TypeError"
    by (simp add: normalizeTask_def asSafeNumber_def notConvertible_def)
  have 4: "normalizeTask exampleEnv (JObj [(''hopper'', JNum plus1e303)])
     = Inr \<lparr> task_id = ''3f0c1e9a-5b7d-4c2e-8a11-6d2f9b0e7c45'', name = ''Untitled task'',
         thumbnailUrl = None, hopper = PInf, streak = Fin 0, dayKey = ''2024-03-05'',
         securedToday = False, createdAt = Fin 1709600000000, updatedAt = Fin 1709600000000,
         lastSecuredAt = None, lastSecuredReason = None \<rparr>"
    by (simp add: normalizeTask_def asSafeNumber_def a(1) r exampleEnv_def)
  show ?thesis using 1 2 3 4 by simp
qed

text \<open>
  C8.  When the day key of a task is ahead of today (\<open>task.dayKey > todayKey\<close>),
  \<open>processTaskToToday\<close> sets the day key to today, clears \<open>securedToday\<close>, reports a
  change and runs no round of the loop: every other field is as before, the day key
  no longer exceeds today and the day difference left is 0.
\<close>

theorem clock_moved_backward:
  assumes "js_str_gt (dayKey t) todayKey"
  shows "processTaskToToday e t todayKey = (t\<lparr>dayKey := todayKey, securedToday := False\<rparr>, True)
       \<and> \<not> js_str_gt (dayKey (fst (processTaskToToday e t todayKey))) todayKey
       \<and> dayDiff e (dayKey (fst (processTaskToToday e t todayKey))) todayKey = 0"
  using assms
  by (simp add: processTaskToToday_def Let_def repairDayKey_def clampDayKey_def js_str_gt_def)

theorem clock_moved_backward_witness:
  "js_str_gt (dayKey (exampleTask\<lparr>dayKey := ''2024-03-09''\<rparr>)) ''2024-03-05''
   \<and> processTaskToToday exampleEnv (exampleTask\<lparr>dayKey := ''2024-03-09''\<rparr>) ''2024-03-05''
       = (exampleTask\<lparr>dayKey := ''2024-03-05'', securedToday := False\<rparr>, True)"
proof -
  have h: "js_str_gt (dayKey (exampleTask\<lparr>dayKey := ''2024-03-09''\<rparr>)) ''2024-03-05''"
    by (simp add: example_not_ahead)
  show ?thesis using clock_moved_backward[OF h, of exampleEnv] h by simp
qed

text \<open>
  C9.  The hopper addition (lines 560 to 585) rejects an amount above 1000000 with
  status 400 and an unknown task identifier with status 404, and whenever it answers
  with an error, or throws, the registry is the one it was given.  The same holds for
  the route as \<open>handleApi\<close> runs it, with the registry that the rollover pass of line
  474 leaves.
\<close>

theorem add_errors_leave_registry:
  "(\<forall>code msg. fst (addToHopper e st ident body) = Reply code msg \<longrightarrow>
       snd (addToHopper e st ident body) = st)
   \<and> (\<forall>msg. fst (addToHopper e st ident body) = Thrown msg \<longrightarrow>
       snd (addToHopper e st ident body) = st)
   \<and> (\<forall>amount. body \<noteq> JNull \<and> asSafeNumber e (getProp body ''amount'') NaN = Inr amount
        \<and> js_gt amount (Fin 1000000)
       \<longrightarrow> addToHopper e st ident body = (Reply 400 ''amount too large'', st))
   \<and> (\<forall>amount. body \<noteq> JNull \<and> asSafeNumber e (getProp body ''amount'') NaN = Inr amount
        \<and> \<not> js_gt amount (Fin 1000000)
        \<and> find (\<lambda>x. task_id x = ident) (tasks st) = None
       \<longrightarrow> addToHopper e st ident body = (Reply 404 ''Task not found'', st))
   \<and> (\<forall>code msg. fst (handleApi_add e st ident body) = Reply code msg \<longrightarrow>
       snd (handleApi_add e st ident body) = fst (processAllToToday e st))
   \<and> (\<forall>msg. fst (handleApi_add e st ident body) = Thrown msg \<longrightarrow>
       snd (handleApi_add e st ident body) = fst (processAllToToday e st))"
proof -
  have 1: "\<forall>code msg. fst (addToHopper e st ident body) = Reply code msg \<longrightarrow>
       snd (addToHopper e st ident body) = st"
    using addToHopper_Reply by blast
  have 5: "\<forall>msg. fst (addToHopper e st ident body) = Thrown msg \<longrightarrow>
       snd (addToHopper e st ident body) = st"
    using addToHopper_Thrown by blast
  have 2: "addToHopper e st ident body = (Reply 400 ''amount too large'', st)"
    if "body \<noteq> JNull \<and> asSafeNumber e (getProp body ''amount'') NaN = Inr amount
        \<and> js_gt amount (Fin 1000000)" for amount
    using that by (simp add: addToHopper_def)
  have 3: "addToHopper e st ident body = (Reply 404 ''Task not found'', st)"
    if "body \<noteq> JNull \<and> asSafeNumber e (getProp body ''amount'') NaN = Inr amount
        \<and> \<not> js_gt amount (Fin 1000000)
        \<and> find (\<lambda>x. task_id x = ident) (tasks st) = None" for amount
    using that by (simp add: addToHopper_def)
  have 4: "\<forall>code msg. fst (handleApi_add e st ident body) = Reply code msg \<longrightarrow>
       snd (handleApi_add e st ident body) = fst (processAllToToday e st)"
    unfolding handleApi_add_def using addToHopper_Reply by blast
  have 6: "\<forall>msg. fst (handleApi_add e st ident body) = Thrown msg \<longrightarrow>
       snd (handleApi_add e st ident body) = fst (processAllToToday e st)"
    unfolding handleApi_add_def using addToHopper_Thrown by blast
  show ?thesis using 1 2 3 4 5 6 by blast
qed

theorem add_errors_leave_registry_witness:
  "addToHopper exampleEnv exampleState ''t2'' (JObj [(''amount'', JNum (Fin 2000000))])
     = (Reply 400 ''amount too large'', exampleState)
   \<and> addToHopper exampleEnv exampleState ''nobody'' (JObj [(''amount'', JNum (Fin 1))])
     = (Reply 404 ''Task not found'', exampleState)
   \<and> fst (addToHopper exampleEnv exampleState ''t2'' (JObj [(''amount'', notConvertible)]))
     = Thrown ''TypeError''
   \<and> snd (addToHopper exampleEnv exampleState ''t2'' (JObj [(''amount'', notConvertible)]))
     = exampleState"
proof -
  have a: "JObj [(''amount'', JNum (Fin 2000000))] \<noteq> JNull
     \<and> asSafeNumber exampleEnv (getProp (JObj [(''amount'', JNum (Fin 2000000))]) ''amount'') NaN
         = Inr (Fin 2000000)
     \<and> js_gt (Fin 2000000) (Fin 1000000)"
    by (simp add: asSafeNumber_def js_gt_def)
  have b: "JObj [(''amount'', JNum (Fin 1))] \<noteq> JNull
     \<and> asSafeNumber exampleEnv (getProp (JObj [(''amount'', JNum (Fin 1))]) ''amount'') NaN
         = Inr (Fin 1)
     \<and> \<not> js_gt (Fin 1) (Fin 1000000)
     \<and> find (\<lambda>x. task_id x = ''nobody'') (tasks exampleState) = None"
    by (simp add: asSafeNumber_def js_gt_def exampleState_def exampleTask_def)
  have c: "fst (addToHopper exampleEnv exampleState ''t2'' (JObj [(''amount'', notConvertible)]))
     = Thrown ''TypeError''"
    by (simp add: addToHopper_def asSafeNumber_def notConvertible_def)
  have 1: "addToHopper exampleEnv exampleState ''t2'' (JObj [(''amount'', JNum (Fin 2000000))])
     = (Reply 400 ''amount too large'', exampleState)"
    using add_errors_leave_registry[of exampleEnv exampleState "''t2''" "JObj [(''amount'', JNum (Fin 2000000))]"] a
    by blast
  have 2: "addToHopper exampleEnv exampleState ''nobody'' (JObj [(''amount'', JNum (Fin 1))])
     = (Reply 404 ''Task not found'', exampleState)"
    using add_errors_leave_registry[of exampleEnv exampleState "''nobody''" "JObj [(''amount'', JNum (Fin 1))]"] b
    by blast
  have 3: "snd (addToHopper exampleEnv exampleState ''t2'' (JObj [(''amount'', notConvertible)]))
     = exampleState"
    using add_errors_leave_registry[of exampleEnv exampleState "''t2''" "JObj [(''amount'', notConvertible)]"] c
    by blast
  show ?thesis using 1 2 3 c by simp
qed

text \<open>
  C10.  The code at the amount \<open>-1e303\<close>, on a registry that is up to date and holds
  one task with hopper 0: the amount passes the check of line 565, the product
  \<open>(n + Number.EPSILON) * f\<close> inside \<open>roundTo\<close> overflows, and the call answers
  200 with a hopper of \<open>-Infinity\<close>.  (An amount that is not finite does leave hopper
  0: lemma \<open>add_non_finite_amount\<close>.)
\<close>

theorem add_overflows_to_minus_infinity:
  "handleApi_add exampleEnv exampleState ''t2'' (JObj [(''amount'', JNum minus1e303)])
     = (ReplyAdded (exampleTask\<lparr> task_id := ''t2'', hopper := NInf, streak := Fin 0,
                       dayKey := ''2024-03-05'', updatedAt := Fin 1709600000000 \<rparr>) False,
        exampleState\<lparr> tasks := [exampleTask\<lparr> task_id := ''t2'', hopper := NInf, streak := Fin 0,
                       dayKey := ''2024-03-05'', updatedAt := Fin 1709600000000 \<rparr>],
                     stUpdatedAt := Fin 1709600000000 \<rparr>)"
proof -
  obtain a where a: "minus1e303 = Fin a" "a \<le> - pow2 1006" "- pow2 1007 \<le> a"
    using rnd_stays_below[OF minus_1e303_bounds] unfolding minus1e303_def by blast
  obtain b where b: "rnd a = Fin b" "b \<le> - pow2 1006"
    using rnd_stays_below[OF a(2,3)] by blast
  have neg: "\<not> 1000000 < a" using a(2) pow2_pos[of 1006] by linarith
  have r: "roundTo (js_add (Fin 0) (Fin a)) = NInf"
    using roundTo_negative_overflow[OF b(2)] by (simp add: b(1))
  have s: "\<not> js_ge NInf (js_sub DAILY_THRESHOLD EPS)"
    by (simp add: threshold_eval js_ge_def js_eq_def)
  show ?thesis
    unfolding handleApi_add_def exampleState_up_to_date fst_conv
    using neg r s
    by (simp add: addToHopper_def Let_def asSafeNumber_def js_gt_def a(1) trySecureToday_def
        exampleState_def exampleTask_def exampleEnv_def del: js_add.simps)
qed

end
